theory Spec2Isabelle
  imports Complex_Main "HOL-Library.Word"
begin

section \<open>A retrying HTTP client: options, the attempt loop and the response body\<close>

text \<open>
  The development follows \<^verbatim>\<open>options.go\<close> and \<^verbatim>\<open>client.go\<close>. Collaborators that the
  package only calls (the transport \<^verbatim>\<open>http.Client.Do\<close>, the caller's request body, the
  overall context, the tracer) are an environment of oracles, indexed by how often they
  have been called, so that every behaviour of a collaborator is some environment.
  Effects are recorded in a trace of events, in program order.
\<close>

subsection \<open>Values\<close>

text \<open>\<^verbatim>\<open>time.Duration\<close> is an int64 count of nanoseconds; Go's \<^verbatim>\<open>uint\<close> is taken at 64 bits.\<close>

type_synonym duration = "64 word"
type_synonym uint = "64 word"
type_synonym generator = nat
type_synonym StartSpanOption = string

datatype error = Err string | Wrapped error string

text \<open>\<^verbatim>\<open>errors.Wrap(err, message)\<close>: \<^verbatim>\<open>nil\<close> stays \<^verbatim>\<open>nil\<close>.\<close>

definition Wrap :: "error option \<Rightarrow> string \<Rightarrow> error option" where
  "Wrap err message = (case err of None \<Rightarrow> None | Some e \<Rightarrow> Some (Wrapped e message))"

text \<open>A call either returns or panics (a nil dereference).\<close>

datatype 'a result = Returned 'a | Panicked

definition second :: duration where
  "second = 1000000000"

definition millisecond :: duration where
  "millisecond = 1000000"

definition defaultReqTimeout :: duration where
  "defaultReqTimeout = 5 * second"

definition defaultMaxRetries :: uint where
  "defaultMaxRetries = 10"

definition stdBackOffExponentialFactor :: duration where
  "stdBackOffExponentialFactor = 1 * millisecond"

definition stdBackOffJitterDeviation :: rat where
  "stdBackOffJitterDeviation = 1 / 4"

subsection \<open>Retry strategies\<close>

text \<open>
  A \<^verbatim>\<open>strategy.Strategy\<close> is a Go function of the breaker (the overall context), the
  attempt number and the last error. The strategies this package builds are named; a
  strategy handed in by the caller is a function of what it is given: the context error
  as the iteration observes it (\<open>None\<close> while the context is not done), the attempt and
  the error.
\<close>

datatype strategy =
    Limit uint
  | StandardBackOffStrategy duration generator rat
  | Custom "error option \<Rightarrow> uint \<Rightarrow> error \<Rightarrow> bool"

text \<open>
  Modelled from the spec: \<^verbatim>\<open>strategy.Limit\<close> and \<^verbatim>\<open>strategy.BackoffWithJitter\<close> belong to
  the module \<^verbatim>\<open>github.com/kamilsk/retry/v5\<close>, which is not part of the sources. The limit
  strategy enforces the maximum attempt count: it permits attempt number \<open>attempt\<close>
  (counted from zero) while \<open>attempt < value\<close>. The back-off strategy only delays; it
  declines only when the overall context is done while it waits before a retry.
\<close>

fun permits :: "strategy \<Rightarrow> error option \<Rightarrow> uint \<Rightarrow> error \<Rightarrow> bool" where
  "permits (Limit v) breaker attempt err = (attempt < v)"
| "permits (StandardBackOffStrategy f g d) breaker attempt err = (attempt = 0 \<or> breaker = None)"
| "permits (Custom f) breaker attempt err = f breaker attempt err"

subsection \<open>Options (\<^verbatim>\<open>options.go\<close>)\<close>

record retryPolicy =
  requestTimeout :: duration
  retryStrategies :: "strategy list"

record tracingOptions =
  enabled :: bool
  injectCarrier :: bool
  spanOptions :: "StartSpanOption list"

text \<open>
  \<^verbatim>\<open>options\<close> holds two pointers. The code writes through \<^verbatim>\<open>*tracingOptions\<close>, so tracing
  options live in a store and the field is an address (\<open>None\<close> is \<^verbatim>\<open>nil\<close>). The code never
  writes through \<^verbatim>\<open>*retryPolicy\<close>: every assignment installs a fresh struct, so the field
  holds the policy by value (\<open>None\<close> is \<^verbatim>\<open>nil\<close>).
\<close>

record options =
  operationName :: string
  tracingOptions :: "nat option"
  retryPolicy :: "retryPolicy option"

record heap =
  cells :: "nat \<Rightarrow> tracingOptions option"
  fresh :: nat

definition alloc :: "tracingOptions \<Rightarrow> heap \<Rightarrow> nat \<times> heap" where
  "alloc t h = (fresh h, h\<lparr>cells := (cells h)(fresh h \<mapsto> t), fresh := Suc (fresh h)\<rparr>)"

text \<open>A write through a pointer; the pointers of a Go program always point to a cell.\<close>

definition store :: "nat \<Rightarrow> (tracingOptions \<Rightarrow> tracingOptions) \<Rightarrow> heap \<Rightarrow> heap" where
  "store a f h = h\<lparr>cells := (cells h)(a := map_option f (cells h a))\<rparr>"

text \<open>
  \<^verbatim>\<open>Option.apply\<close> is unexported and \<^verbatim>\<open>newFuncOption\<close> is called by the four constructors
  only, so an \<^verbatim>\<open>Option\<close> is one of these four.
\<close>

datatype ClientOption =
    WithRetryPolicy duration uint "strategy list"
  | WithStandardRetryPolicy duration uint
  | WithTracingOptions bool string "StartSpanOption list"
  | WithSpanCarrierInjected

fun apply_option :: "ClientOption \<Rightarrow> generator \<Rightarrow> options \<times> heap \<Rightarrow> options \<times> heap" where
  "apply_option (WithRetryPolicy timeout maxRetries strategies) g (ops, h) =
     (ops\<lparr>retryPolicy := Some \<lparr>requestTimeout = timeout,
                             retryStrategies = Limit maxRetries # strategies\<rparr>\<rparr>, h)"
| "apply_option (WithStandardRetryPolicy timeout maxRetries) g (ops, h) =
     (ops\<lparr>retryPolicy := Some \<lparr>requestTimeout = timeout,
          retryStrategies = [Limit maxRetries,
            StandardBackOffStrategy stdBackOffExponentialFactor g stdBackOffJitterDeviation]\<rparr>\<rparr>, h)"
| "apply_option (WithTracingOptions en opName spanOpts) g (ops, h) =
     (let o1 = ops\<lparr>operationName := opName\<rparr> in
      case tracingOptions o1 of
        None \<Rightarrow>
          (let (a, h1) = alloc \<lparr>enabled = en, injectCarrier = False, spanOptions = spanOpts\<rparr> h
           in (o1\<lparr>tracingOptions := Some a\<rparr>, h1))
      | Some a \<Rightarrow> (o1, store a (\<lambda>t. t\<lparr>enabled := en, spanOptions := spanOpts\<rparr>) h))"
| "apply_option WithSpanCarrierInjected g (ops, h) =
     (case tracingOptions ops of
        None \<Rightarrow>
          (let (a, h1) = alloc \<lparr>enabled = False, injectCarrier = True, spanOptions = []\<rparr> h
           in (ops\<lparr>tracingOptions := Some a\<rparr>, h1))
      | Some a \<Rightarrow> (ops, store a (\<lambda>t. t\<lparr>injectCarrier := True\<rparr>) h))"

text \<open>\<^verbatim>\<open>for _, o := range opts { o.apply(&x, generator) }\<close>\<close>

fun apply_all :: "ClientOption list \<Rightarrow> generator \<Rightarrow> options \<times> heap \<Rightarrow> options \<times> heap" where
  "apply_all [] g s = s"
| "apply_all (x # xs) g s = apply_all xs g (apply_option x g s)"

subsection \<open>The client (\<^verbatim>\<open>client.go\<close>)\<close>

text \<open>The field \<^verbatim>\<open>client\<close> is always \<^verbatim>\<open>http.DefaultClient\<close>: the transport of the environment.\<close>

record Client =
  options :: options
  generator :: generator

definition New :: "ClientOption list \<Rightarrow> generator \<Rightarrow> heap \<Rightarrow> Client \<times> heap" where
  "New opts g h =
     (let (clientOpts, h1) =
            apply_all opts g (\<lparr>operationName = [], tracingOptions = None, retryPolicy = None\<rparr>, h);
          (clientOpts2, h2) =
            (if retryPolicy clientOpts = None
             then apply_option (WithStandardRetryPolicy defaultReqTimeout defaultMaxRetries) g
                    (clientOpts, h1)
             else (clientOpts, h1))
      in (\<lparr>options = clientOpts2, generator = g\<rparr>, h2))"

subsection \<open>Requests, responses and the environment\<close>

text \<open>
  A request body either implements \<^verbatim>\<open>io.ReadSeekCloser\<close> or does not; the number names the
  caller's object. \<^verbatim>\<open>getRequestBodyReadSeekCloser\<close> keeps the first kind and copies the
  second into a \<^verbatim>\<open>BytesReadSeekCloser\<close>.
\<close>

datatype body = Seekable nat | Plain nat

datatype ReadSeekCloser = CallerBody nat | BytesReadSeekCloser "8 word list"

record Request =
  Method :: string
  URL :: string
  Body :: "body option"

text \<open>
  The context handed to the transport: the request's own context, the context that
  carries the span, or a context derived by \<^verbatim>\<open>context.WithTimeout\<close>, whose cancel function
  has the number given.
\<close>

datatype Context = ReqCtx | SpanCtx Context | TimeoutCtx Context duration nat

text \<open>
  What the transport returns: the status code and the body, a body of the transport's
  own making named by a number (\<open>None\<close> is \<^verbatim>\<open>nil\<close>).
\<close>

record NetResponse =
  netStatusCode :: int
  netBody :: "nat option"

text \<open>
  The \<^verbatim>\<open>io.ReadCloser\<close> in \<^verbatim>\<open>resp.Body\<close>: the transport's body, or the wrapper
  \<^verbatim>\<open>responseBodyReadCloser{readCloser, cancelFunc}\<close> that \<^verbatim>\<open>Do\<close> puts around it
  (\<open>None\<close> is \<^verbatim>\<open>nil\<close> in both fields).
\<close>

datatype ReadCloser = NetBody nat | responseBodyReadCloser "nat option" "nat option"

record Response =
  StatusCode :: int
  RespBody :: "ReadCloser option"

text \<open>The \<^verbatim>\<open>*http.Response\<close> as the transport hands it over, before \<^verbatim>\<open>Do\<close> wraps its body.\<close>

definition received :: "NetResponse \<Rightarrow> Response" where
  "received r = \<lparr>StatusCode = netStatusCode r, RespBody = map_option NetBody (netBody r)\<rparr>"

datatype event =
    ReadAllBody nat
  | CloseBody nat
  | CloseReqBody ReadSeekCloser
  | SeekStart
  | Send Context
  | Cancel nat
  | CloseNetBody nat
  | StartSpan string "StartSpanOption list" string string
  | InjectCarrier
  | LogAttempt "32 word"
  | TagAttemptCount "32 word"
  | LogError error
  | TagError
  | TagStatusCode "16 word"

record env =
  NewRequest :: "string \<Rightarrow> error option"
  ReadAll :: "error + 8 word list"
  Seek :: "nat \<Rightarrow> error option"
  ClientDo :: "nat \<Rightarrow> NetResponse option \<times> error option"
  ctxErr :: "uint \<Rightarrow> error option"
  Inject :: "error option"

text \<open>
  \<open>NewRequest url\<close>: the error of \<^verbatim>\<open>http.NewRequestWithContext\<close>, if any.
  \<open>ReadAll\<close>: what \<^verbatim>\<open>io.ReadAll(req.Body)\<close> gives. \<open>Seek n\<close>: the error of the \<open>n\<close>-th
  \<^verbatim>\<open>Seek(0, io.SeekStart)\<close> on a body of the caller. \<open>ClientDo n\<close>: what the \<open>n\<close>-th
  \<^verbatim>\<open>c.client.Do\<close> returns. \<open>ctxErr k\<close>: \<^verbatim>\<open>ctx.Err()\<close> of the overall context as iteration
  \<open>k\<close> of the retry loop observes it. \<open>Inject\<close>: the error of the tracer's \<^verbatim>\<open>Inject\<close>.
\<close>

subsection \<open>Closing a response body\<close>

text \<open>
  \<^verbatim>\<open>responseBodyReadCloser.Close\<close> defers the cancel function when it is not nil and closes
  the wrapped body; the deferred call runs after that, also when closing a nil body panics.
\<close>

fun Close :: "ReadCloser \<Rightarrow> event list \<Rightarrow> unit result \<times> event list" where
  "Close (NetBody b) tr = (Returned (), tr @ [CloseNetBody b])"
| "Close (responseBodyReadCloser rc cancelFunc) tr =
     (let (r, tr1) = (case rc of None \<Rightarrow> (Panicked, tr) | Some b \<Rightarrow> (Returned (), tr @ [CloseNetBody b]))
      in (r, case cancelFunc of None \<Rightarrow> tr1 | Some c \<Rightarrow> tr1 @ [Cancel c]))"

text \<open>The caller closing a body \<open>n\<close> times in a row.\<close>

fun Close_times :: "nat \<Rightarrow> ReadCloser \<Rightarrow> event list \<Rightarrow> event list" where
  "Close_times 0 b tr = tr"
| "Close_times (Suc n) b tr = Close_times n b (snd (Close b tr))"

subsection \<open>The retry loop\<close>

text \<open>
  Modelled from the spec: \<^verbatim>\<open>retry.Do\<close> of \<^verbatim>\<open>github.com/kamilsk/retry/v5\<close> is not part of
  the sources. Each iteration asks the strategies in order whether attempt number
  \<open>attempt\<close> may be made, given the last error; it returns the context's error when the
  overall context is done; it runs the action when the strategies permit; it goes on
  while they permit and the action failed, and returns the last error. The strategies
  are asked before the first attempt as well (attempt number 0), when the last error is
  the library's own \<^verbatim>\<open>"have no any try"\<close>. The attempt number is a \<^verbatim>\<open>uint\<close> and wraps
  around. The loop may run forever, so its result is an option.
\<close>

definition internal :: error where
  "internal = Err ''have no any try''"

partial_function (option) retry_loop ::
  "strategy list \<Rightarrow> (uint \<Rightarrow> error option) \<Rightarrow> ('s \<Rightarrow> error option result \<times> 's)
     \<Rightarrow> uint \<Rightarrow> error \<Rightarrow> 's \<Rightarrow> (error option result \<times> 's) option" where
  "retry_loop strategies ctx action attempt err s =
     (let should = list_all (\<lambda>st. permits st (ctx attempt) attempt err) strategies in
      case ctx attempt of
        Some ce \<Rightarrow> Some (Returned (Some ce), s)
      | None \<Rightarrow>
          if \<not> should then Some (Returned (Some err), s)
          else (case action s of
                  (Panicked, s1) \<Rightarrow> Some (Panicked, s1)
                | (Returned None, s1) \<Rightarrow> Some (Returned None, s1)
                | (Returned (Some aErr), s1) \<Rightarrow>
                    retry_loop strategies ctx action (attempt + 1) aErr s1))"

definition retry_Do ::
  "(uint \<Rightarrow> error option) \<Rightarrow> ('s \<Rightarrow> error option result \<times> 's) \<Rightarrow> strategy list \<Rightarrow> 's
     \<Rightarrow> (error option result \<times> 's) option" where
  "retry_Do ctx action strategies s = retry_loop strategies ctx action 0 internal s"

subsection \<open>\<^verbatim>\<open>Do\<close>\<close>

text \<open>
  The variables \<^verbatim>\<open>resp\<close> and \<^verbatim>\<open>attemptCount\<close> that the action closure shares with \<^verbatim>\<open>Do\<close>,
  the trace, and three counters that only observe: the calls of \<^verbatim>\<open>Seek\<close>, the calls of
  the transport, and the calls of the action.
\<close>

record locals =
  resp :: "Response option"
  attemptCount :: "32 word"
  seeks :: nat
  sends :: nat
  calls :: nat
  trace :: "event list"

definition emit :: "event list \<Rightarrow> locals \<Rightarrow> locals" where
  "emit evs s = s\<lparr>trace := trace s @ evs\<rparr>"

definition getRequestBodyReadSeekCloser ::
  "env \<Rightarrow> body \<Rightarrow> (error + ReadSeekCloser) \<times> event list" where
  "getRequestBodyReadSeekCloser e b =
     (case b of
        Seekable k \<Rightarrow> (Inr (CallerBody k), [])
      | Plain k \<Rightarrow>
          (case ReadAll e of
             Inl err \<Rightarrow> (Inl err, [ReadAllBody k, CloseBody k])
           | Inr bodyBytes \<Rightarrow> (Inr (BytesReadSeekCloser bodyBytes), [ReadAllBody k, CloseBody k])))"

text \<open>
  \<^verbatim>\<open>startAndInjectSpan\<close> gives whether a span exists, the context that carries it, and an
  error. The tracing options are read through the pointer.
\<close>

definition startAndInjectSpan ::
  "env \<Rightarrow> Request \<Rightarrow> options \<Rightarrow> heap \<Rightarrow> event list
     \<Rightarrow> (bool \<times> Context option \<times> error option) result \<times> event list" where
  "startAndInjectSpan e req opts h tr =
     (case tracingOptions opts of
        None \<Rightarrow> (Returned (False, None, None), tr)
      | Some a \<Rightarrow>
          (case cells h a of
             None \<Rightarrow> (Panicked, tr)
           | Some tracingOpts \<Rightarrow>
               if \<not> enabled tracingOpts then (Returned (False, None, None), tr)
               else
                 (let opName = (if operationName opts \<noteq> []
                                then ''HTTP Egress - '' @ operationName opts
                                else ''HTTP Egress'');
                      tr1 = tr @ [StartSpan opName (spanOptions tracingOpts) (Method req) (URL req)]
                  in if injectCarrier tracingOpts
                     then (case Inject e of
                             Some err \<Rightarrow> (Returned (False, None, Some err), tr1 @ [InjectCarrier])
                           | None \<Rightarrow>
                               (Returned (True, Some (SpanCtx ReqCtx), None), tr1 @ [InjectCarrier]))
                     else (Returned (True, Some (SpanCtx ReqCtx), None), tr1))))"

text \<open>\<^verbatim>\<open>reqBody.Seek(0, io.SeekStart)\<close>; a \<^verbatim>\<open>bytes.Reader\<close> cannot fail to seek to its start.\<close>

definition rewind :: "env \<Rightarrow> ReadSeekCloser option \<Rightarrow> locals \<Rightarrow> error option \<times> locals" where
  "rewind e reqBody s =
     (case reqBody of
        None \<Rightarrow> (None, s)
      | Some (BytesReadSeekCloser bs) \<Rightarrow> (None, emit [SeekStart] (s\<lparr>seeks := Suc (seeks s)\<rparr>))
      | Some (CallerBody k) \<Rightarrow> (Seek e (seeks s), emit [SeekStart] (s\<lparr>seeks := Suc (seeks s)\<rparr>)))"

text \<open>
  The action closure of \<^verbatim>\<open>Do\<close>. \<open>sp\<close> says whether the span is not nil. The cancel function
  of an attempt is numbered by the transport call it belongs to. A transport that
  returns neither a response nor an error makes \<^verbatim>\<open>resp.Body = ...\<close> panic.
\<close>

definition action ::
  "env \<Rightarrow> retryPolicy \<Rightarrow> bool \<Rightarrow> ReadSeekCloser option \<Rightarrow> Context \<Rightarrow> locals
     \<Rightarrow> error option result \<times> locals" where
  "action e rp sp reqBody aCtx s0 =
     (let s1 = (if sp then emit [LogAttempt (attemptCount s0)] s0 else s0)\<lparr>calls := Suc (calls s0)\<rparr>
      in case rewind e reqBody s1 of
           (Some aErr, s2) \<Rightarrow> (Returned (Some aErr), s2)
         | (None, s2) \<Rightarrow>
             (let cancelFunc = (if requestTimeout rp \<noteq> 0 then Some (sends s2) else None);
                  aCtx1 = (case cancelFunc of
                             None \<Rightarrow> aCtx
                           | Some c \<Rightarrow> TimeoutCtx aCtx (requestTimeout rp) c);
                  (r, aErr) = ClientDo e (sends s2);
                  s3 = emit [Send aCtx1]
                         (s2\<lparr>resp := map_option received r, attemptCount := attemptCount s2 + 1, sends := Suc (sends s2)\<rparr>)
              in case aErr of
                   Some er \<Rightarrow>
                     (Returned (Some er),
                      case cancelFunc of None \<Rightarrow> s3 | Some c \<Rightarrow> emit [Cancel c] s3)
                 | None \<Rightarrow>
                     (case r of
                        None \<Rightarrow> (Panicked, s3)
                      | Some rr \<Rightarrow>
                          (Returned None,
                           s3\<lparr>resp := Some ((received rr)\<lparr>RespBody :=
                                  Some (responseBodyReadCloser (netBody rr) cancelFunc)\<rparr>)\<rparr>))))"

text \<open>
  What \<^verbatim>\<open>Do\<close> does after \<^verbatim>\<open>retry.Do\<close>. With a span and no error, \<^verbatim>\<open>resp.StatusCode\<close> is
  read, which panics on a nil response.
\<close>

definition finish ::
  "bool \<Rightarrow> error option result \<times> locals \<Rightarrow> (Response option \<times> error option) result \<times> locals" where
  "finish sp x =
     (case x of
        (Panicked, s) \<Rightarrow> (Panicked, s)
      | (Returned err, s) \<Rightarrow>
          (let s1 = (if sp then emit [TagAttemptCount (attemptCount s)] s else s) in
           case err of
             Some er \<Rightarrow>
               (let s2 = (if sp then emit [LogError er, TagError] s1 else s1);
                    (cr, tr) = (case resp s2 of
                                  None \<Rightarrow> (Returned (), trace s2)
                                | Some rr \<Rightarrow>
                                    (case RespBody rr of
                                       None \<Rightarrow> (Returned (), trace s2)
                                     | Some b \<Rightarrow> Close b (trace s2)))
                in (case cr of Panicked \<Rightarrow> Panicked | Returned u \<Rightarrow> Returned (None, Some er),
                    s2\<lparr>trace := tr\<rparr>))
           | None \<Rightarrow>
               (case resp s1 of
                  None \<Rightarrow> (if sp then (Panicked, s1) else (Returned (None, None), s1))
                | Some rr \<Rightarrow>
                    (Returned (Some rr, None),
                     if sp then emit [TagStatusCode (word_of_int (StatusCode rr))] s1 else s1))))"

text \<open>Lines 124 to 202 of \<^verbatim>\<open>client.go\<close>: span, loop and outcome.\<close>

definition Do_attempts ::
  "env \<Rightarrow> options \<Rightarrow> heap \<Rightarrow> Request \<Rightarrow> ReadSeekCloser option \<Rightarrow> locals
     \<Rightarrow> ((Response option \<times> error option) result \<times> locals) option" where
  "Do_attempts e requestOpts h req reqBody s0 =
     (case startAndInjectSpan e req requestOpts h (trace s0) of
        (Panicked, tr) \<Rightarrow> Some (Panicked, s0\<lparr>trace := tr\<rparr>)
      | (Returned (sp, spCtx, Some err), tr) \<Rightarrow>
          Some (Returned (None, Wrap (Some err) ''error starting and injecting tracing span''),
                s0\<lparr>trace := tr\<rparr>)
      | (Returned (sp, spCtx, None), tr) \<Rightarrow>
          (let ctx = (case spCtx of None \<Rightarrow> ReqCtx | Some c \<Rightarrow> c) in
           case retryPolicy requestOpts of
             None \<Rightarrow> Some (Panicked, s0\<lparr>trace := tr\<rparr>)
           | Some rp \<Rightarrow>
               map_option (finish sp)
                 (retry_Do (ctxErr e) (action e rp sp reqBody ctx) (retryStrategies rp)
                    (s0\<lparr>trace := tr\<rparr>))))"

definition locals0 :: locals where
  "locals0 = \<lparr>resp = None, attemptCount = 0, seeks = 0, sends = 0, calls = 0, trace = []\<rparr>"

text \<open>The merge of the per-call options over the client's: \<^verbatim>\<open>requestOpts := c.options\<close> and the loop.\<close>

definition requestOptions :: "Client \<Rightarrow> ClientOption list \<Rightarrow> heap \<Rightarrow> options \<times> heap" where
  "requestOptions c opts h = apply_all opts (generator c) (options c, h)"

text \<open>
  \<^verbatim>\<open>Do\<close> gives the outcome, the final locals and the store, or \<open>None\<close> when the retry loop
  never ends. \<^verbatim>\<open>defer reqBody.Close()\<close> runs on every exit after the body was captured.
\<close>

definition Do ::
  "env \<Rightarrow> Client \<Rightarrow> Request \<Rightarrow> ClientOption list \<Rightarrow> heap
     \<Rightarrow> ((Response option \<times> error option) result \<times> locals \<times> heap) option" where
  "Do e c req opts h =
     (let (requestOpts, h1) = requestOptions c opts h in
      case Body req of
        None \<Rightarrow>
          map_option (\<lambda>(r, s). (r, s, h1)) (Do_attempts e requestOpts h1 req None locals0)
      | Some b \<Rightarrow>
          (case getRequestBodyReadSeekCloser e b of
             (Inl err, tr) \<Rightarrow>
               Some (Returned (None, Wrap (Some err) ''error preparing request body''),
                     emit tr locals0, h1)
           | (Inr reqBody, tr) \<Rightarrow>
               map_option (\<lambda>(r, s). (r, emit [CloseReqBody reqBody] s, h1))
                 (Do_attempts e requestOpts h1 req (Some reqBody) (emit tr locals0))))"

text \<open>
  \<^verbatim>\<open>Get\<close>, \<^verbatim>\<open>Head\<close> and \<^verbatim>\<open>Post\<close> build the request and forward to \<^verbatim>\<open>Do\<close>. The body of
  \<^verbatim>\<open>Post\<close> is given as \<^verbatim>\<open>http.NewRequestWithContext\<close> stores it in the request.
\<close>

definition Get ::
  "env \<Rightarrow> Client \<Rightarrow> string \<Rightarrow> ClientOption list \<Rightarrow> heap
     \<Rightarrow> ((Response option \<times> error option) result \<times> locals \<times> heap) option" where
  "Get e c url opts h =
     (case NewRequest e url of
        Some err \<Rightarrow> Some (Returned (None, Wrap (Some err) ''error creating request''), locals0, h)
      | None \<Rightarrow> Do e c \<lparr>Method = ''GET'', URL = url, Body = None\<rparr> opts h)"

definition Head ::
  "env \<Rightarrow> Client \<Rightarrow> string \<Rightarrow> ClientOption list \<Rightarrow> heap
     \<Rightarrow> ((Response option \<times> error option) result \<times> locals \<times> heap) option" where
  "Head e c url opts h =
     (case NewRequest e url of
        Some err \<Rightarrow> Some (Returned (None, Wrap (Some err) ''error creating request''), locals0, h)
      | None \<Rightarrow> Do e c \<lparr>Method = ''HEAD'', URL = url, Body = None\<rparr> opts h)"

definition Post ::
  "env \<Rightarrow> Client \<Rightarrow> string \<Rightarrow> body option \<Rightarrow> ClientOption list \<Rightarrow> heap
     \<Rightarrow> ((Response option \<times> error option) result \<times> locals \<times> heap) option" where
  "Post e c url b opts h =
     (case NewRequest e url of
        Some err \<Rightarrow> Some (Returned (None, Wrap (Some err) ''error creating request''), locals0, h)
      | None \<Rightarrow> Do e c \<lparr>Method = ''POST'', URL = url, Body = b\<rparr> opts h)"

subsection \<open>Notions used in the statements\<close>

text \<open>The options that install a retry policy.\<close>

fun is_retry_option :: "ClientOption \<Rightarrow> bool" where
  "is_retry_option (WithRetryPolicy t n ss) = True"
| "is_retry_option (WithStandardRetryPolicy t n) = True"
| "is_retry_option x = False"

text \<open>A policy is present and its first strategy is a limit on the attempts.\<close>

definition limit_first :: "retryPolicy option \<Rightarrow> bool" where
  "limit_first p = (case p of
      None \<Rightarrow> False
    | Some rp \<Rightarrow> (case retryStrategies rp of Limit n # rest \<Rightarrow> True | x \<Rightarrow> False))"

text \<open>The store before any tracing options were allocated.\<close>

definition heap0 :: heap where
  "heap0 = \<lparr>cells = Map.empty, fresh = 0\<rparr>"

text \<open>
  The transport's body inside a response body was closed: its close is in the trace.
\<close>

fun closed :: "ReadCloser \<Rightarrow> event list \<Rightarrow> bool" where
  "closed (NetBody k) tr = (CloseNetBody k \<in> set tr)"
| "closed (responseBodyReadCloser rc cancelFunc) tr =
     (case rc of None \<Rightarrow> False | Some k \<Rightarrow> CloseNetBody k \<in> set tr)"

text \<open>
  An environment in which nothing fails: the \<open>n\<close>-th transport call answers 200 with
  body \<open>n\<close>. The examples below change one collaborator at a time.
\<close>

definition env0 :: env where
  "env0 = \<lparr>NewRequest = (\<lambda>url. None), ReadAll = Inr [], Seek = (\<lambda>n. None),
           ClientDo = (\<lambda>n. (Some \<lparr>netStatusCode = 200, netBody = Some n\<rparr>, None)),
           ctxErr = (\<lambda>k. None), Inject = None\<rparr>"

definition request0 :: Request where
  "request0 = \<lparr>Method = ''GET'', URL = ''http://example.test'', Body = None\<rparr>"

text \<open>The transport follows ten redirects and gives up, handing back the last response.\<close>

definition env_redirects :: env where
  "env_redirects = env0\<lparr>ClientDo :=
     (\<lambda>n. (Some \<lparr>netStatusCode = 302, netBody = Some 7\<rparr>, Some (Err ''stopped after 10 redirects'')))\<rparr>"

text \<open>The response that \<^verbatim>\<open>Do\<close> holds, if it holds one with a body, had its body closed.\<close>

definition body_closed :: "locals \<Rightarrow> bool" where
  "body_closed s =
     (case resp s of
        None \<Rightarrow> True
      | Some x \<Rightarrow> (case RespBody x of None \<Rightarrow> True | Some b \<Rightarrow> closed b (trace s)))"

text \<open>The parts of what \<^verbatim>\<open>Do\<close> gives.\<close>

definition outcome_of ::
  "((Response option \<times> error option) result \<times> locals \<times> heap) option
     \<Rightarrow> (Response option \<times> error option) result option" where
  "outcome_of x = map_option fst x"

definition locals_of ::
  "((Response option \<times> error option) result \<times> locals \<times> heap) option \<Rightarrow> locals option" where
  "locals_of x = map_option (fst \<circ> snd) x"

definition heap_of ::
  "((Response option \<times> error option) result \<times> locals \<times> heap) option \<Rightarrow> heap option" where
  "heap_of x = map_option (snd \<circ> snd) x"

text \<open>
  The call gets as far as the retry loop: capturing the body did not fail, and the span
  was set up (or tracing is off).
\<close>

definition enters_loop :: "env \<Rightarrow> Client \<Rightarrow> Request \<Rightarrow> ClientOption list \<Rightarrow> heap \<Rightarrow> bool" where
  "enters_loop e c req opts h =
     ((case Body req of
         None \<Rightarrow> True
       | Some b \<Rightarrow> (case fst (getRequestBodyReadSeekCloser e b) of Inl err \<Rightarrow> False | Inr x \<Rightarrow> True))
      \<and> (case fst (startAndInjectSpan e req (fst (requestOptions c opts h))
                     (snd (requestOptions c opts h)) []) of
            Returned (sp, spCtx, None) \<Rightarrow> True
          | x \<Rightarrow> False))"

text \<open>
  The server never answers within the attempt's timeout, and the overall context's
  deadline passes after five attempts.
\<close>

definition env_deadline :: env where
  "env_deadline = env0\<lparr>
     ClientDo := (\<lambda>n. (None, Some (Err ''Client.Timeout exceeded''))),
     ctxErr := (\<lambda>k. if k < 5 then None else Some (Err ''context deadline exceeded''))\<rparr>"

text \<open>The server refuses every connection.\<close>

definition env_refused :: env where
  "env_refused = env0\<lparr>ClientDo := (\<lambda>n. (None, Some (Err ''connection refused'')))\<rparr>"

text \<open>The tracing options a client's stored defaults point to, as the store has them.\<close>

definition client_tracing :: "Client \<Rightarrow> heap \<Rightarrow> tracingOptions option" where
  "client_tracing c h = (case tracingOptions (options c) of None \<Rightarrow> None | Some a \<Rightarrow> cells h a)"

text \<open>Tracing is enabled in the options, read through their pointer.\<close>

definition tracing_enabled :: "options \<Rightarrow> heap \<Rightarrow> bool" where
  "tracing_enabled ops h =
     (case tracingOptions ops of
        None \<Rightarrow> False
      | Some a \<Rightarrow> (case cells h a of None \<Rightarrow> False | Some t \<Rightarrow> enabled t))"

text \<open>The option \<^verbatim>\<open>WithTracingOptions(true, ...)\<close>.\<close>

fun enables_tracing :: "ClientOption \<Rightarrow> bool" where
  "enables_tracing (WithTracingOptions en opName spanOpts) = en"
| "enables_tracing x = False"

text \<open>A context that carries a span.\<close>

fun carries_span :: "Context \<Rightarrow> bool" where
  "carries_span ReqCtx = False"
| "carries_span (SpanCtx c) = True"
| "carries_span (TimeoutCtx c d k) = carries_span c"

text \<open>
  The events of tracing: a span is started, written to or injected into the request's
  headers, or the transport is given a context that carries a span.
\<close>

fun traced :: "event \<Rightarrow> bool" where
  "traced (StartSpan opName spanOpts method url) = True"
| "traced InjectCarrier = True"
| "traced (LogAttempt n) = True"
| "traced (TagAttemptCount n) = True"
| "traced (LogError er) = True"
| "traced TagError = True"
| "traced (TagStatusCode code) = True"
| "traced (Send ctx) = carries_span ctx"
| "traced x = False"

text \<open>Capturing the request body did not fail (or there is no body).\<close>

definition body_captured :: "env \<Rightarrow> Request \<Rightarrow> bool" where
  "body_captured e req =
     (case Body req of
        None \<Rightarrow> True
      | Some b \<Rightarrow> (case fst (getRequestBodyReadSeekCloser e b) of Inl err \<Rightarrow> False | Inr x \<Rightarrow> True))"

text \<open>A client built with tracing switched off, and the store it was built in.\<close>

definition client_untraced :: Client where
  "client_untraced = fst (New [WithTracingOptions False ''client'' []] 0 heap0)"

definition heap_untraced :: heap where
  "heap_untraced = snd (New [WithTracingOptions False ''client'' []] 0 heap0)"

text \<open>The store after a call on that client switched tracing and injection on.\<close>

definition heap_traced :: heap where
  "heap_traced = \<lparr>cells = Map.empty(0 \<mapsto> \<lparr>enabled = True, injectCarrier = True, spanOptions = []\<rparr>),
                   fresh = 1\<rparr>"

text \<open>The tracer refuses to inject the carrier.\<close>

definition env_no_inject :: env where
  "env_no_inject = env0\<lparr>Inject := Some (Err ''carrier rejected'')\<rparr>"

text \<open>
  The context that \<^verbatim>\<open>Do\<close> hands to \<^verbatim>\<open>retry.Do\<close>, and \<^verbatim>\<open>retry.Do\<close> to every attempt: the
  context that carries the span when \<^verbatim>\<open>startAndInjectSpan\<close> gave one, else the request's.
\<close>

definition loop_context :: "env \<Rightarrow> Request \<Rightarrow> options \<Rightarrow> heap \<Rightarrow> Context" where
  "loop_context e req ro h =
     (case fst (startAndInjectSpan e req ro h []) of
        Returned (sp, Some spCtx, er) \<Rightarrow> spCtx
      | x \<Rightarrow> ReqCtx)"

text \<open>The context of the latest transport call in a trace.\<close>

fun last_send :: "event list \<Rightarrow> Context option" where
  "last_send [] = None"
| "last_send (x # xs) =
     (case last_send xs of
        Some c \<Rightarrow> Some c
      | None \<Rightarrow> (case x of Send c \<Rightarrow> Some c | y \<Rightarrow> None))"

text \<open>
  An event of a run that derives no per-attempt context from the context \<open>p\<close>: it is no
  call of a cancel function, and if it is a transport call, the transport got \<open>p\<close> itself.
\<close>

fun keeps_context :: "Context \<Rightarrow> event \<Rightarrow> bool" where
  "keeps_context p (Cancel k) = False"
| "keeps_context p (Send ctx) = (ctx = p)"
| "keeps_context p x = True"

text \<open>The first transport call fails, the later ones succeed.\<close>

definition env_flaky :: env where
  "env_flaky = env0\<lparr>ClientDo :=
     (\<lambda>n. if n = 0 then (None, Some (Err ''connection reset''))
          else (Some \<lparr>netStatusCode = 200, netBody = Some n\<rparr>, None))\<rparr>"

text \<open>A client with a request timeout of zero and tracing on, and the store it was built in.\<close>

definition client_traced_untimed :: Client where
  "client_traced_untimed =
     fst (New [WithRetryPolicy 0 2 [], WithTracingOptions True ''op'' []] 0 heap0)"

definition heap_traced_untimed :: heap where
  "heap_traced_untimed =
     snd (New [WithRetryPolicy 0 2 [], WithTracingOptions True ''op'' []] 0 heap0)"

text \<open>The caller's body cannot be rewound: the first time only, or ever.\<close>

definition env_seek_once :: env where
  "env_seek_once = env0\<lparr>Seek := (\<lambda>n. if n = 0 then Some (Err ''seek failed'') else None)\<rparr>"



section \<open>Properties\<close>

subsection \<open>The retry loop\<close>

text \<open>
  An attempt number below the limit is not the largest \<^verbatim>\<open>uint\<close>, so counting it up does
  not wrap around.
\<close>

lemma unat_succ_below:
  assumes "(k::uint) < N"
  shows "unat (k + 1) = Suc (unat k)"
proof -
  have "unat k < unat N" using assms by (simp add: word_less_nat_alt)
  moreover have "unat N < 2 ^ LENGTH(64)" by (rule unsigned_less)
  ultimately have "unat k + unat (1::uint) < 2 ^ LENGTH(64)" by simp
  then have "unat (k + 1) = unat k + unat (1::uint)" by (simp only: unat_add_lem)
  then show ?thesis by simp
qed

lemma retry_loop_invariant:
  assumes run: "retry_loop strategies ctx act k err s = Some y"
    and step: "\<And>s r s1. I s \<Longrightarrow> act s = (r, s1) \<Longrightarrow> I s1"
    and init: "I s"
  shows "I (snd y) \<and> (fst y = Returned None \<longrightarrow> (\<exists>s0. I s0 \<and> act s0 = (Returned None, snd y)))"
proof -
  have "(\<forall>s r s1. I s \<longrightarrow> act s = (r, s1) \<longrightarrow> I s1) \<longrightarrow> I s
          \<longrightarrow> I (snd y) \<and> (fst y = Returned None \<longrightarrow> (\<exists>s0. I s0 \<and> act s0 = (Returned None, snd y)))"
  proof (rule retry_loop.raw_induct
          [rotated, OF run, where P = "\<lambda>str c a k er s y. (\<forall>s r s1. I s \<longrightarrow> a s = (r, s1) \<longrightarrow> I s1) \<longrightarrow> I s
              \<longrightarrow> I (snd y) \<and> (fst y = Returned None \<longrightarrow> (\<exists>s0. I s0 \<and> a s0 = (Returned None, snd y)))"],
         goal_cases)
    case (1 rl str c a k er s y)
    show ?case
    proof (intro impI)
      assume st: "\<forall>s r s1. I s \<longrightarrow> a s = (r, s1) \<longrightarrow> I s1" and i: "I s"
      show "I (snd y) \<and> (fst y = Returned None \<longrightarrow> (\<exists>s0. I s0 \<and> a s0 = (Returned None, snd y)))"
      proof (cases "c k")
        case (Some ce)
        with 1(2) have "y = (Returned (Some ce), s)" by simp
        then show ?thesis using i by simp
      next
        case None
        show ?thesis
        proof (cases "list_all (\<lambda>st. permits st (c k) k er) str")
          case False
          with None 1(2) have "y = (Returned (Some er), s)" by simp
          then show ?thesis using i by simp
        next
          case True
          obtain r s1 where a: "a s = (r, s1)" by (cases "a s")
          have i1: "I s1" using st i a by blast
          show ?thesis
          proof (cases r)
            case Panicked
            with None True a 1(2) have "y = (Panicked, s1)" by simp
            then show ?thesis using i1 by simp
          next
            case (Returned x)
            show ?thesis
            proof (cases x)
              case None
              with \<open>c k = None\<close> True a Returned 1(2) have "y = (Returned None, s1)" by simp
              then show ?thesis using i1 i a Returned None by auto
            next
              case (Some aErr)
              with \<open>c k = None\<close> True a Returned 1(2)
              have "rl str c a (k + 1) aErr s1 = Some y" by simp
              from 1(1) [OF this] st i1 show ?thesis by blast
            qed
          qed
        qed
      qed
    qed
  qed
  with step init show ?thesis by blast
qed


lemma retry_loop_ctx_done:
  "ctx k = Some ce \<Longrightarrow> retry_loop strategies ctx act k err s = Some (Returned (Some ce), s)"
  by (subst retry_loop.simps) simp

lemma retry_loop_declined:
  "ctx k = None \<Longrightarrow> \<not> list_all (\<lambda>st. permits st (ctx k) k err) strategies
     \<Longrightarrow> retry_loop strategies ctx act k err s = Some (Returned (Some err), s)"
  by (subst retry_loop.simps) simp

lemma retry_loop_failed:
  "ctx k = None \<Longrightarrow> list_all (\<lambda>st. permits st (ctx k) k err) strategies
     \<Longrightarrow> act s = (Returned (Some aErr), s1)
     \<Longrightarrow> retry_loop strategies ctx act k err s = retry_loop strategies ctx act (k + 1) aErr s1"
  by (subst retry_loop.simps) simp

lemma retry_loop_stopped:
  "ctx k = None \<Longrightarrow> list_all (\<lambda>st. permits st (ctx k) k err) strategies
     \<Longrightarrow> act s = (r, s1) \<Longrightarrow> r = Panicked \<or> r = Returned None
     \<Longrightarrow> retry_loop strategies ctx act k err s = Some (r, s1)"
  by (subst retry_loop.simps) auto

lemma result_cases3:
  obtains "r = Panicked" | "r = Returned None" | aErr where "r = Returned (Some aErr)"
proof (cases r)
  case (Returned x)
  then show ?thesis using that by (cases x) auto
next
  case Panicked
  then show ?thesis using that by auto
qed

lemma retry_loop_limit:
  assumes step: "\<And>s r s1. act s = (r, s1) \<Longrightarrow> f s1 \<le> Suc (f s)"
  shows "\<exists>r s1. retry_loop (Limit N # rest) ctx act k err s = Some (r, s1)
           \<and> f s1 \<le> f s + (unat N - unat k)"
proof (induction "unat N - unat k" arbitrary: k err s)
  case 0
  then have nlt: "\<not> k < N" by (simp add: word_less_nat_alt)
  show ?case
  proof (cases "ctx k")
    case None
    then show ?thesis using nlt by (simp add: retry_loop_declined)
  next
    case (Some ce)
    then show ?thesis by (simp add: retry_loop_ctx_done)
  qed
next
  case (Suc n)
  then have lt: "k < N" by (simp add: word_less_nat_alt)
  then have nxt: "unat (k + 1) = Suc (unat k)" by (rule unat_succ_below)
  with Suc have m: "n = unat N - unat (k + 1)" by simp
  show ?case
  proof (cases "ctx k")
    case (Some ce)
    then show ?thesis by (simp add: retry_loop_ctx_done)
  next
    case None
    show ?thesis
    proof (cases "list_all (\<lambda>st. permits st (ctx k) k err) (Limit N # rest)")
      case False
      with None have "retry_loop (Limit N # rest) ctx act k err s = Some (Returned (Some err), s)"
        by (rule retry_loop_declined)
      then show ?thesis by simp
    next
      case True
      obtain r s1 where a: "act s = (r, s1)" by (cases "act s")
      then have b: "f s1 \<le> Suc (f s)" by (rule step)
      show ?thesis
      proof (cases r rule: result_cases3)
        case (3 aErr)
        from Suc.hyps(1) [OF m, of aErr s1]
        obtain r2 s2 where
          "retry_loop (Limit N # rest) ctx act (k + 1) aErr s1 = Some (r2, s2)"
          "f s2 \<le> f s1 + (unat N - unat (k + 1))" by blast
        moreover have "retry_loop (Limit N # rest) ctx act k err s =
            retry_loop (Limit N # rest) ctx act (k + 1) aErr s1"
          using None True a 3 by (intro retry_loop_failed) auto
        ultimately show ?thesis using b nxt Suc.hyps(2) by auto
      next
        case 1
        with None True a
        have "retry_loop (Limit N # rest) ctx act k err s = Some (r, s1)"
          by (intro retry_loop_stopped) auto
        then show ?thesis using b Suc.hyps(2) by auto
      next
        case 2
        with None True a
        have "retry_loop (Limit N # rest) ctx act k err s = Some (r, s1)"
          by (intro retry_loop_stopped) auto
        then show ?thesis using b Suc.hyps(2) by auto
      qed
    qed
  qed
qed

lemma retry_loop_exhausts:
  assumes fails: "\<And>s. \<exists>aErr s1. act s = (Returned (Some aErr), s1) \<and> f s1 = Suc (f s)"
    and alive: "\<And>j. j < N \<Longrightarrow> ctx j = None"
    and others: "\<And>j er. j < N \<Longrightarrow> list_all (\<lambda>st. permits st None j er) rest"
  shows "\<exists>r s1. retry_loop (Limit N # rest) ctx act k err s = Some (r, s1)
           \<and> f s1 = f s + (unat N - unat k)"
proof (induction "unat N - unat k" arbitrary: k err s)
  case 0
  then have nlt: "\<not> k < N" by (simp add: word_less_nat_alt)
  show ?case
  proof (cases "ctx k")
    case None
    then show ?thesis using nlt 0 by (simp add: retry_loop_declined)
  next
    case (Some ce)
    then show ?thesis using 0 by (simp add: retry_loop_ctx_done)
  qed
next
  case (Suc n)
  then have lt: "k < N" by (simp add: word_less_nat_alt)
  then have nxt: "unat (k + 1) = Suc (unat k)" by (rule unat_succ_below)
  with Suc have m: "n = unat N - unat (k + 1)" by simp
  have live: "ctx k = None" using lt by (rule alive)
  have ok: "list_all (\<lambda>st. permits st (ctx k) k err) (Limit N # rest)"
    using lt live others [OF lt, of err] by simp
  obtain aErr s1 where a: "act s = (Returned (Some aErr), s1)" and b: "f s1 = Suc (f s)"
    using fails [of s] by blast
  from Suc.hyps(1) [OF m, of aErr s1]
  obtain r2 s2 where
    "retry_loop (Limit N # rest) ctx act (k + 1) aErr s1 = Some (r2, s2)"
    "f s2 = f s1 + (unat N - unat (k + 1))" by blast
  moreover have "retry_loop (Limit N # rest) ctx act k err s =
      retry_loop (Limit N # rest) ctx act (k + 1) aErr s1"
    using live ok a by (rule retry_loop_failed)
  ultimately show ?case using b nxt Suc.hyps(2) by auto
qed

subsection \<open>Installed retry policies\<close>

lemma apply_option_limit_first:
  "limit_first (retryPolicy (fst s)) \<or> is_retry_option x
     \<Longrightarrow> limit_first (retryPolicy (fst (apply_option x g s)))"
  by (cases x; cases s)
     (auto simp: limit_first_def Let_def alloc_def split: option.splits prod.splits)

lemma apply_all_limit_first:
  "limit_first (retryPolicy (fst s)) \<or> (\<exists>x \<in> set xs. is_retry_option x)
     \<Longrightarrow> limit_first (retryPolicy (fst (apply_all xs g s)))"
proof (induction xs arbitrary: s)
  case Nil
  then show ?case by simp
next
  case (Cons x xs)
  show ?case
  proof (cases "limit_first (retryPolicy (fst s)) \<or> is_retry_option x")
    case True
    then have "limit_first (retryPolicy (fst (apply_option x g s)))"
      by (rule apply_option_limit_first)
    then show ?thesis using Cons.IH by simp
  next
    case False
    with Cons.prems have "\<exists>x \<in> set xs. is_retry_option x" by auto
    then show ?thesis using Cons.IH by simp
  qed
qed

lemma apply_option_keeps_policy:
  "\<not> is_retry_option x \<Longrightarrow> retryPolicy (fst (apply_option x g s)) = retryPolicy (fst s)"
  by (cases x; cases s)
     (auto simp: Let_def alloc_def split: option.splits prod.splits)

lemma apply_all_keeps_policy:
  "\<forall>x \<in> set xs. \<not> is_retry_option x
     \<Longrightarrow> retryPolicy (fst (apply_all xs g s)) = retryPolicy (fst s)"
  by (induction xs arbitrary: s) (simp_all add: apply_option_keeps_policy)

lemma New_options:
  "options (fst (New opts g h)) =
     (let s = apply_all opts g (\<lparr>operationName = [], tracingOptions = None, retryPolicy = None\<rparr>, h)
      in if retryPolicy (fst s) = None
         then fst (apply_option (WithStandardRetryPolicy defaultReqTimeout defaultMaxRetries) g s)
         else fst s)"
  by (simp add: New_def Let_def split: prod.splits)

text \<open>
  C9. Every retry policy that is installed carries a limit on the attempts: the policy
  that \<^verbatim>\<open>WithRetryPolicy\<close> installs is \<^verbatim>\<open>strategy.Limit(maxRetries)\<close> followed by the caller's
  strategies; the policy of a client made by \<^verbatim>\<open>New\<close> begins with a limit; when no option
  given to \<^verbatim>\<open>New\<close> is a retry policy, the client has the standard policy, which is a
  request timeout of 5 seconds, \<^verbatim>\<open>Limit(10)\<close> and the exponential back-off with jitter
  (factor 1 ms, the client's generator, deviation 0.25); and merging per-call options
  over a client whose policy begins with a limit gives such a policy again.
\<close>

theorem retry_policy_has_limit:
  "retryPolicy (fst (apply_option (WithRetryPolicy t n ss) g (ops, h)))
       = Some \<lparr>requestTimeout = t, retryStrategies = Limit n # ss\<rparr>
   \<and> limit_first (retryPolicy (options (fst (New opts g h))))
   \<and> ((\<forall>x \<in> set opts. \<not> is_retry_option x) \<longrightarrow>
        retryPolicy (options (fst (New opts g h)))
          = Some \<lparr>requestTimeout = 5000000000,
                  retryStrategies = [Limit 10, StandardBackOffStrategy 1000000 g (1 / 4)]\<rparr>)
   \<and> (limit_first (retryPolicy (options c)) \<longrightarrow>
        limit_first (retryPolicy (fst (requestOptions c callOpts h1))))"
proof (intro conjI impI)
  show "retryPolicy (fst (apply_option (WithRetryPolicy t n ss) g (ops, h)))
       = Some \<lparr>requestTimeout = t, retryStrategies = Limit n # ss\<rparr>" by simp
next
  let ?s = "apply_all opts g (\<lparr>operationName = [], tracingOptions = None, retryPolicy = None\<rparr>, h)"
  show "limit_first (retryPolicy (options (fst (New opts g h))))"
  proof (cases "retryPolicy (fst ?s) = None")
    case True
    then show ?thesis
      by (simp add: New_options Let_def apply_option_limit_first)
  next
    case False
    have "\<exists>x \<in> set opts. is_retry_option x"
    proof (rule ccontr)
      assume "\<not> (\<exists>x \<in> set opts. is_retry_option x)"
      then have "retryPolicy (fst ?s) = None" by (simp add: apply_all_keeps_policy)
      with False show False by simp
    qed
    then have "limit_first (retryPolicy (fst ?s))" by (simp add: apply_all_limit_first)
    with False show ?thesis by (auto simp: New_options Let_def)
  qed
next
  assume "\<forall>x \<in> set opts. \<not> is_retry_option x"
  then have "retryPolicy (fst (apply_all opts g
      (\<lparr>operationName = [], tracingOptions = None, retryPolicy = None\<rparr>, h))) = None"
    by (simp add: apply_all_keeps_policy)
  then show "retryPolicy (options (fst (New opts g h)))
          = Some \<lparr>requestTimeout = 5000000000,
                  retryStrategies = [Limit 10, StandardBackOffStrategy 1000000 g (1 / 4)]\<rparr>"
    by (cases "apply_all opts g (\<lparr>operationName = [], tracingOptions = None, retryPolicy = None\<rparr>, h)")
       (simp add: New_options Let_def defaultReqTimeout_def defaultMaxRetries_def second_def
          stdBackOffExponentialFactor_def millisecond_def stdBackOffJitterDeviation_def)
next
  assume "limit_first (retryPolicy (options c))"
  then show "limit_first (retryPolicy (fst (requestOptions c callOpts h1)))"
    by (simp add: requestOptions_def apply_all_limit_first)
qed

theorem retry_policy_has_limit_witness:
  "\<not> is_retry_option (WithTracingOptions True ''op'' [])
   \<and> retryPolicy (options (fst (New [WithTracingOptions True ''op'' []] 0 heap0)))
       = Some \<lparr>requestTimeout = 5000000000,
               retryStrategies = [Limit 10, StandardBackOffStrategy 1000000 0 (1 / 4)]\<rparr>
   \<and> limit_first (retryPolicy (options (fst (New [WithRetryPolicy 7 3 []] 0 heap0))))
   \<and> limit_first (retryPolicy (fst (requestOptions
        (fst (New [WithRetryPolicy 7 3 []] 0 heap0)) [WithSpanCarrierInjected] heap0)))"
  using retry_policy_has_limit [where opts = "[WithTracingOptions True ''op'' []]"
      and g = 0 and h = heap0]
    retry_policy_has_limit [where opts = "[WithRetryPolicy 7 3 []]" and g = 0 and h = heap0
      and c = "fst (New [WithRetryPolicy 7 3 []] 0 heap0)"
      and callOpts = "[WithSpanCarrierInjected]" and ?h1.0 = heap0]
  by simp

subsection \<open>The shape of a run of \<^verbatim>\<open>Do\<close>\<close>

lemma limit_firstE:
  assumes "limit_first p"
  obtains rp N rest where "p = Some rp" "retryStrategies rp = Limit N # rest"
  using assms
  by (auto simp: limit_first_def split: option.splits list.splits strategy.splits)

lemma limit_firstI: "p = Some rp \<Longrightarrow> retryStrategies rp = Limit N # rest \<Longrightarrow> limit_first p"
  by (simp add: limit_first_def)

text \<open>A run of \<^verbatim>\<open>Do\<close> that returns stopped before the loop or went through it.\<close>

lemma Do_attempts_SomeE:
  assumes "Do_attempts e ro h req rb s0 = Some (out, s)"
  obtains
    (span_panic) tr where
      "startAndInjectSpan e req ro h (trace s0) = (Panicked, tr)"
      "out = Panicked" "s = s0\<lparr>trace := tr\<rparr>"
  | (span_error) sp spCtx err tr where
      "startAndInjectSpan e req ro h (trace s0) = (Returned (sp, spCtx, Some err), tr)"
      "out = Returned (None, Some (Wrapped err ''error starting and injecting tracing span''))"
      "s = s0\<lparr>trace := tr\<rparr>"
  | (no_policy) sp spCtx tr where
      "startAndInjectSpan e req ro h (trace s0) = (Returned (sp, spCtx, None), tr)"
      "retryPolicy ro = None" "out = Panicked" "s = s0\<lparr>trace := tr\<rparr>"
  | (loop) sp spCtx tr rp r s1 where
      "startAndInjectSpan e req ro h (trace s0) = (Returned (sp, spCtx, None), tr)"
      "retryPolicy ro = Some rp"
      "retry_Do (ctxErr e) (action e rp sp rb (case spCtx of None \<Rightarrow> ReqCtx | Some c \<Rightarrow> c))
         (retryStrategies rp) (s0\<lparr>trace := tr\<rparr>) = Some (r, s1)"
      "finish sp (r, s1) = (out, s)"
  using assms
  by (auto simp: Do_attempts_def Wrap_def Let_def
           split: prod.splits result.splits option.splits)

lemma Do_SomeE:
  assumes "Do e c req opts h = Some (out, s, h1)"
  obtains
    (prepare) b err tr where
      "Body req = Some b" "getRequestBodyReadSeekCloser e b = (Inl err, tr)"
      "out = Returned (None, Some (Wrapped err ''error preparing request body''))"
      "s = emit tr locals0"
  | (no_body)
      "Body req = None"
      "Do_attempts e (fst (requestOptions c opts h)) (snd (requestOptions c opts h)) req None locals0
         = Some (out, s)"
  | (with_body) b reqBody tr s1 where
      "Body req = Some b" "getRequestBodyReadSeekCloser e b = (Inr reqBody, tr)"
      "Do_attempts e (fst (requestOptions c opts h)) (snd (requestOptions c opts h)) req
         (Some reqBody) (emit tr locals0) = Some (out, s1)"
      "s = emit [CloseReqBody reqBody] s1"
  using assms
  by (auto simp: Do_def Wrap_def Let_def
           split: prod.splits sum.splits option.splits)

lemma retry_Do_limit:
  assumes "\<And>s r s1. act s = (r, s1) \<Longrightarrow> f s1 \<le> Suc (f s)"
  shows "\<exists>r s1. retry_Do ctx act (Limit N # rest) s = Some (r, s1) \<and> f s1 \<le> f s + unat N"
  using retry_loop_limit [of act f N rest ctx 0 internal s, OF assms]
  by (simp add: retry_Do_def)

lemma Do_attempts_terminates:
  assumes "limit_first (retryPolicy ro)"
  shows "\<exists>x. Do_attempts e ro h req rb s0 = Some x"
proof -
  from assms obtain rp N rest where rp: "retryPolicy ro = Some rp"
    "retryStrategies rp = Limit N # rest" by (rule limit_firstE)
  have run: "\<exists>y. retry_Do (ctxErr e) act (retryStrategies rp) s = Some y"
    for act :: "locals \<Rightarrow> error option result \<times> locals" and s
    using retry_Do_limit [of act "\<lambda>s. 0" "ctxErr e" N rest s] rp by auto
  obtain x tr where sp: "startAndInjectSpan e req ro h (trace s0) = (x, tr)"
    by (cases "startAndInjectSpan e req ro h (trace s0)")
  show ?thesis
  proof (cases x)
    case Panicked
    with sp show ?thesis by (simp add: Do_attempts_def)
  next
    case (Returned t)
    obtain sp1 spCtx err where t: "t = (sp1, spCtx, err)" by (cases t)
    show ?thesis
    proof (cases err)
      case (Some er)
      with sp Returned t show ?thesis by (simp add: Do_attempts_def)
    next
      case None
      obtain y where
        "retry_Do (ctxErr e) (action e rp sp1 rb (case spCtx of None \<Rightarrow> ReqCtx | Some c \<Rightarrow> c))
           (retryStrategies rp) (s0\<lparr>trace := tr\<rparr>) = Some y"
        using run by blast
      with sp Returned t None rp show ?thesis by (simp add: Do_attempts_def)
    qed
  qed
qed

lemma Do_terminates:
  assumes "limit_first (retryPolicy (fst (requestOptions c opts h)))"
  shows "\<exists>x. Do e c req opts h = Some x"
proof -
  obtain ro h1 where ro: "requestOptions c opts h = (ro, h1)" by (cases "requestOptions c opts h")
  with assms have "limit_first (retryPolicy ro)" by simp
  then have att: "\<exists>x. Do_attempts e ro h1 req rb s0 = Some x" for rb s0
    by (rule Do_attempts_terminates)
  show ?thesis
  proof (cases "Body req")
    case None
    with ro att [of None locals0] show ?thesis by (auto simp: Do_def)
  next
    case (Some b)
    obtain x tr where g: "getRequestBodyReadSeekCloser e b = (x, tr)"
      by (cases "getRequestBodyReadSeekCloser e b")
    show ?thesis
    proof (cases x)
      case (Inl err)
      with ro Some g show ?thesis by (simp add: Do_def)
    next
      case (Inr reqBody)
      with ro Some g att [of "Some reqBody" "emit tr locals0"] show ?thesis
        by (auto simp: Do_def)
    qed
  qed
qed

subsection \<open>Response or error\<close>

lemmas run_simps =
  Do_def Do_attempts_def requestOptions_def New_def retry_Do_def retry_loop.simps action_def
  rewind_def finish_def startAndInjectSpan_def getRequestBodyReadSeekCloser_def emit_def
  locals0_def alloc_def store_def Wrap_def internal_def received_def heap0_def env0_def
  request0_def Get_def Head_def Post_def Let_def

lemma action_success_resp:
  "action e rp sp rb ctx s = (Returned None, s1) \<Longrightarrow> resp s1 \<noteq> None"
  by (auto simp: action_def Let_def split: prod.splits option.splits if_splits)

lemma retry_Do_success_resp:
  assumes "retry_Do ctxf (action e rp sp rb ctx) strategies s = Some (Returned None, s1)"
  shows "resp s1 \<noteq> None"
proof -
  from assms have "retry_loop strategies ctxf (action e rp sp rb ctx) 0 internal s
      = Some (Returned None, s1)" by (simp add: retry_Do_def)
  from retry_loop_invariant [OF this, of "\<lambda>s. True"]
  obtain s0 where "action e rp sp rb ctx s0 = (Returned None, s1)" by auto
  then show ?thesis by (rule action_success_resp)
qed

lemma Close_closed: "Close b tr = (Returned u, tr1) \<Longrightarrow> closed b tr1"
  by (cases b) (auto simp: Let_def split: option.splits prod.splits)

lemma closed_append: "closed b tr \<Longrightarrow> closed b (tr @ evs)"
  by (cases b) (auto split: option.splits)

lemma finish_outcome:
  assumes "finish sp (r, s1) = (Returned (rr, er), s)"
    and "r = Returned None \<Longrightarrow> resp s1 \<noteq> None"
  shows "(rr = None) \<noteq> (er = None) \<and> (er \<noteq> None \<longrightarrow> body_closed s)"
  using assms
  by (auto simp: finish_def Let_def emit_def body_closed_def
           split: result.splits option.splits prod.splits if_splits
           dest: Close_closed)

lemma Do_attempts_outcome:
  assumes "Do_attempts e ro h req rb s0 = Some (Returned (rr, er), s)" and "resp s0 = None"
  shows "(rr = None) \<noteq> (er = None) \<and> (er \<noteq> None \<longrightarrow> body_closed s)"
  using assms(1)
proof (cases rule: Do_attempts_SomeE)
  case (span_error sp spCtx err tr)
  then show ?thesis using assms(2) by (simp add: body_closed_def)
next
  case (loop sp spCtx tr rp r s1)
  have "r = Returned None \<Longrightarrow> resp s1 \<noteq> None"
    using loop(3) retry_Do_success_resp by blast
  with loop(4) show ?thesis by (rule finish_outcome)
qed simp_all

lemma body_closed_emit: "body_closed s \<Longrightarrow> body_closed (emit evs s)"
  by (auto simp: body_closed_def emit_def closed_append split: option.splits)

lemma Do_outcome:
  assumes "Do e c req opts h = Some (Returned (rr, er), s, h1)"
  shows "(rr = None) \<noteq> (er = None) \<and> (er \<noteq> None \<longrightarrow> body_closed s)"
  using assms
proof (cases rule: Do_SomeE)
  case (prepare b err tr)
  then show ?thesis by (simp add: body_closed_def emit_def locals0_def)
next
  case no_body
  then show ?thesis by (intro Do_attempts_outcome) (auto simp: locals0_def)
next
  case (with_body b reqBody tr s1)
  from with_body(3) have "(rr = None) \<noteq> (er = None) \<and> (er \<noteq> None \<longrightarrow> body_closed s1)"
    by (rule Do_attempts_outcome) (simp add: locals0_def emit_def)
  with with_body(4) show ?thesis by (auto simp: body_closed_emit)
qed

lemma built_request_outcome:
  assumes "(case NewRequest e url of
              Some err \<Rightarrow>
                Some (Returned (None, Wrap (Some err) ''error creating request''), locals0, h)
            | None \<Rightarrow> Do e c req opts h) = Some (Returned (rr, er), s, h1)"
  shows "(rr = None) \<noteq> (er = None) \<and> (er \<noteq> None \<longrightarrow> body_closed s)"
proof (cases "NewRequest e url")
  case None
  with assms show ?thesis by (simp add: Do_outcome)
next
  case (Some err)
  with assms show ?thesis by (auto simp: Wrap_def body_closed_def locals0_def)
qed

text \<open>
  C1. Whenever \<^verbatim>\<open>Do\<close>, \<^verbatim>\<open>Get\<close>, \<^verbatim>\<open>Head\<close> or \<^verbatim>\<open>Post\<close> returns, exactly one of the response
  and the error is nil. When it returns an error and \<^verbatim>\<open>Do\<close> still holds a response with a
  body (the response of the attempt that was discarded), the close of that body is in
  the trace: it happened before the return.
\<close>

theorem response_xor_error:
  assumes "call \<in> {Do e c req, Get e c url, Head e c url, Post e c url b}"
    and "call opts h = Some (Returned (rr, er), s, h1)"
  shows "(rr = None) \<noteq> (er = None) \<and> (er \<noteq> None \<longrightarrow> body_closed s)"
proof -
  from assms(1) consider "call = Do e c req" | "call = Get e c url" | "call = Head e c url"
    | "call = Post e c url b" by auto
  then show ?thesis
  proof cases
    case 1
    with assms(2) show ?thesis by (simp add: Do_outcome)
  next
    case 2
    with assms(2) show ?thesis by (intro built_request_outcome) (simp add: Get_def)
  next
    case 3
    with assms(2) show ?thesis by (intro built_request_outcome) (simp add: Head_def)
  next
    case 4
    with assms(2) show ?thesis by (intro built_request_outcome) (simp add: Post_def)
  qed
qed

theorem response_xor_error_witness:
  "\<exists>s. Do env_redirects (fst (New [WithRetryPolicy second 1 []] 0 heap0)) request0 [] heap0
         = Some (Returned (None, Some (Err ''stopped after 10 redirects'')), s, heap0)
       \<and> resp s = Some \<lparr>StatusCode = 302, RespBody = Some (NetBody 7)\<rparr>
       \<and> body_closed s \<and> CloseNetBody 7 \<in> set (trace s)"
proof -
  obtain s where run:
    "Do env_redirects (fst (New [WithRetryPolicy second 1 []] 0 heap0)) request0 [] heap0
       = Some (Returned (None, Some (Err ''stopped after 10 redirects'')), s, heap0)"
    and r: "resp s = Some \<lparr>StatusCode = 302, RespBody = Some (NetBody 7)\<rparr>"
    and t: "CloseNetBody 7 \<in> set (trace s)"
    by (simp add: run_simps env_redirects_def second_def)
  have "Do env_redirects (fst (New [WithRetryPolicy second 1 []] 0 heap0)) request0
      \<in> {Do env_redirects (fst (New [WithRetryPolicy second 1 []] 0 heap0)) request0,
          Get env_redirects (fst (New [WithRetryPolicy second 1 []] 0 heap0)) [],
          Head env_redirects (fst (New [WithRetryPolicy second 1 []] 0 heap0)) [],
          Post env_redirects (fst (New [WithRetryPolicy second 1 []] 0 heap0)) [] None}"
    by simp
  from response_xor_error [OF this run] have "body_closed s" by simp
  with run r t show ?thesis by blast
qed

subsection \<open>The number of transport calls\<close>

lemma action_sends: "action e rp sp rb ctx s = (r, s1) \<Longrightarrow> sends s1 \<le> Suc (sends s)"
  by (auto simp: action_def rewind_def emit_def Let_def
           split: prod.splits option.splits if_splits ReadSeekCloser.splits)

lemma action_transport_fails:
  assumes "\<And>n. Seek e n = None" and "\<And>n. snd (ClientDo e n) \<noteq> None"
  shows "\<exists>aErr s1. action e rp sp rb ctx s = (Returned (Some aErr), s1) \<and> sends s1 = Suc (sends s)"
proof -
  obtain r aErr where cd: "ClientDo e (sends s) = (r, Some aErr)"
    using assms(2) [of "sends s"] by (cases "ClientDo e (sends s)") auto
  show ?thesis
    using cd assms(1)
    by (auto simp: action_def rewind_def emit_def Let_def
             split: prod.splits option.splits ReadSeekCloser.splits)
qed

lemma finish_sends: "finish sp (r, s1) = (out, s) \<Longrightarrow> sends s = sends s1"
  by (auto simp: finish_def emit_def Let_def
           split: result.splits option.splits prod.splits if_splits)

lemma startAndInjectSpan_fst:
  "fst (startAndInjectSpan e req ro h tr) = fst (startAndInjectSpan e req ro h [])"
  by (simp add: startAndInjectSpan_def Let_def split: option.splits)

lemma Do_attempts_sends:
  assumes run: "Do_attempts e ro h req rb s0 = Some (out, s)"
    and s0: "sends s0 = 0"
    and rp: "retryPolicy ro = Some rp" "retryStrategies rp = Limit N # rest"
  shows "sends s \<le> unat N"
    and "\<lbrakk>fst (startAndInjectSpan e req ro h []) = Returned (sp0, spCtx0, None);
          \<And>j. j < N \<Longrightarrow> ctxErr e j = None;
          \<And>j er. j < N \<Longrightarrow> list_all (\<lambda>st. permits st None j er) rest;
          \<And>n. Seek e n = None; \<And>n. snd (ClientDo e n) \<noteq> None\<rbrakk> \<Longrightarrow> sends s = unat N"
proof -
  show "sends s \<le> unat N"
    using run
  proof (cases rule: Do_attempts_SomeE)
    case (loop sp spCtx tr rp1 r s1)
    let ?act = "action e rp1 sp rb (case spCtx of None \<Rightarrow> ReqCtx | Some c \<Rightarrow> c)"
    from retry_Do_limit [of ?act sends "ctxErr e" N rest "s0\<lparr>trace := tr\<rparr>"] action_sends
    obtain r2 s2 where "retry_Do (ctxErr e) ?act (Limit N # rest) (s0\<lparr>trace := tr\<rparr>) = Some (r2, s2)"
      "sends s2 \<le> sends (s0\<lparr>trace := tr\<rparr>) + unat N" by blast
    with loop(2,3) rp s0 have "sends s1 \<le> unat N" by simp
    with loop(4) show ?thesis by (simp add: finish_sends)
  qed (simp_all add: s0)
next
  assume span: "fst (startAndInjectSpan e req ro h []) = Returned (sp0, spCtx0, None)"
    and alive: "\<And>j. j < N \<Longrightarrow> ctxErr e j = None"
    and others: "\<And>j er. j < N \<Longrightarrow> list_all (\<lambda>st. permits st None j er) rest"
    and seek: "\<And>n. Seek e n = None" and fails: "\<And>n. snd (ClientDo e n) \<noteq> None"
  have span1: "fst (startAndInjectSpan e req ro h (trace s0)) = Returned (sp0, spCtx0, None)"
    using span startAndInjectSpan_fst by metis
  show "sends s = unat N"
    using run
  proof (cases rule: Do_attempts_SomeE)
    case (loop sp spCtx tr rp1 r s1)
    let ?act = "action e rp1 sp rb (case spCtx of None \<Rightarrow> ReqCtx | Some c \<Rightarrow> c)"
    have "\<exists>aErr s1. ?act s = (Returned (Some aErr), s1) \<and> sends s1 = Suc (sends s)" for s
      using seek fails by (rule action_transport_fails)
    from retry_loop_exhausts [of ?act sends N "ctxErr e" rest 0 internal "s0\<lparr>trace := tr\<rparr>",
        OF this alive others]
    obtain r2 s2 where "retry_Do (ctxErr e) ?act (Limit N # rest) (s0\<lparr>trace := tr\<rparr>) = Some (r2, s2)"
      "sends s2 = sends (s0\<lparr>trace := tr\<rparr>) + unat N" by (auto simp: retry_Do_def)
    with loop(2,3) rp s0 have "sends s1 = unat N" by simp
    with loop(4) show ?thesis by (simp add: finish_sends)
  qed (use span1 rp in simp_all)
qed

text \<open>
  C3, as amended. With a retry policy whose maximum is \<open>N\<close>, \<^verbatim>\<open>Do\<close> ends (it returns,
  or it panics on a transport that gives neither response nor error) and the transport
  was called at most \<open>N\<close> times. It was called exactly \<open>N\<close> times when the call
  gets as far as the retry loop, the overall context is not done before any of the \<open>N\<close>
  attempts, every further strategy of the policy permits each of them, no rewind of the
  body fails, and every transport call fails.
\<close>

theorem transport_calls_bounded:
  assumes "retryPolicy (fst (requestOptions c opts h)) = Some rp"
    and "retryStrategies rp = Limit N # rest"
  shows "\<exists>out s h1. Do e c req opts h = Some (out, s, h1) \<and> sends s \<le> unat N
           \<and> (enters_loop e c req opts h
                \<and> (\<forall>j. j < N \<longrightarrow> ctxErr e j = None)
                \<and> (\<forall>j er. j < N \<longrightarrow> list_all (\<lambda>st. permits st None j er) rest)
                \<and> (\<forall>n. Seek e n = None) \<and> (\<forall>n. snd (ClientDo e n) \<noteq> None)
              \<longrightarrow> sends s = unat N)"
proof -
  let ?ro = "fst (requestOptions c opts h)" and ?h = "snd (requestOptions c opts h)"
  have "limit_first (retryPolicy ?ro)" using assms by (rule limit_firstI)
  then obtain out s h1 where run: "Do e c req opts h = Some (out, s, h1)"
    using Do_terminates [of c opts h e req] by (metis prod_cases3)
  have bound: "sends s \<le> unat N"
    using run
  proof (cases rule: Do_SomeE)
    case no_body
    from Do_attempts_sends(1) [OF no_body(2) _ assms] show ?thesis by (simp add: locals0_def)
  next
    case (with_body b reqBody tr s1)
    from Do_attempts_sends(1) [OF with_body(3) _ assms] with_body(4) show ?thesis
      by (simp add: locals0_def emit_def)
  qed (simp add: emit_def locals0_def)
  have exact: "sends s = unat N"
    if loop: "enters_loop e c req opts h"
      and alive: "\<And>j. j < N \<Longrightarrow> ctxErr e j = None"
      and others: "\<And>j er. j < N \<Longrightarrow> list_all (\<lambda>st. permits st None j er) rest"
      and seek: "\<And>n. Seek e n = None" and fails: "\<And>n. snd (ClientDo e n) \<noteq> None"
  proof -
    from loop obtain sp0 spCtx0 where
      span: "fst (startAndInjectSpan e req ?ro ?h []) = Returned (sp0, spCtx0, None)"
      by (auto simp: enters_loop_def split: result.splits option.splits prod.splits)
    show ?thesis
      using run
    proof (cases rule: Do_SomeE)
      case (prepare b err tr)
      with loop show ?thesis by (simp add: enters_loop_def)
    next
      case no_body
      from Do_attempts_sends(2) [OF no_body(2) _ assms span alive others seek fails]
      show ?thesis by (simp add: locals0_def)
    next
      case (with_body b reqBody tr s1)
      from Do_attempts_sends(2) [OF with_body(3) _ assms span alive others seek fails] with_body(4)
      show ?thesis by (simp add: locals0_def emit_def)
    qed
  qed
  from run bound exact show ?thesis by blast
qed

theorem transport_calls_bounded_witness:
  "retryPolicy (fst (requestOptions (fst (New [WithRetryPolicy (100 * millisecond) 3 []] 0 heap0))
       [] heap0)) = Some \<lparr>requestTimeout = 100 * millisecond, retryStrategies = [Limit 3]\<rparr>
   \<and> enters_loop env_refused (fst (New [WithRetryPolicy (100 * millisecond) 3 []] 0 heap0))
         request0 [] heap0
   \<and> map_option sends (locals_of (Do env_refused
         (fst (New [WithRetryPolicy (100 * millisecond) 3 []] 0 heap0)) request0 [] heap0)) = Some 3"
proof -
  let ?c = "fst (New [WithRetryPolicy (100 * millisecond) 3 []] 0 heap0)"
  have p: "retryPolicy (fst (requestOptions ?c [] heap0))
      = Some \<lparr>requestTimeout = 100 * millisecond, retryStrategies = [Limit 3]\<rparr>"
    by (simp add: requestOptions_def New_def)
  have l: "enters_loop env_refused ?c request0 [] heap0"
    by (simp add: enters_loop_def request0_def requestOptions_def New_def startAndInjectSpan_def)
  have "(\<forall>j. j < (3::uint) \<longrightarrow> ctxErr env_refused j = None)
      \<and> (\<forall>j er. j < (3::uint) \<longrightarrow> list_all (\<lambda>st. permits st None j er) [])
      \<and> (\<forall>n. Seek env_refused n = None) \<and> (\<forall>n. snd (ClientDo env_refused n) \<noteq> None)"
    by (simp add: env_refused_def env0_def)
  with l transport_calls_bounded [OF p, of 3 "[]" env_refused request0]
  have "map_option sends (locals_of (Do env_refused ?c request0 [] heap0)) = Some 3"
    by (auto simp: locals_of_def)
  with p l show ?thesis by simp
qed



theorem transport_calls_counterexample:
  "outcome_of (Do env_deadline (fst (New [WithRetryPolicy (100 * millisecond) 15 []] 0 heap0))
       request0 [] heap0) = Some (Returned (None, Some (Err ''context deadline exceeded'')))
   \<and> map_option trace (locals_of (Do env_deadline
         (fst (New [WithRetryPolicy (100 * millisecond) 15 []] 0 heap0)) request0 [] heap0))
       = Some [Send (TimeoutCtx ReqCtx 100000000 0), Cancel 0,
               Send (TimeoutCtx ReqCtx 100000000 1), Cancel 1,
               Send (TimeoutCtx ReqCtx 100000000 2), Cancel 2,
               Send (TimeoutCtx ReqCtx 100000000 3), Cancel 3,
               Send (TimeoutCtx ReqCtx 100000000 4), Cancel 4]
   \<and> map_option sends (locals_of (Do env_deadline
         (fst (New [WithRetryPolicy (100 * millisecond) 15 []] 0 heap0)) request0 [] heap0))
       = Some 5"
  by (simp add: run_simps env_deadline_def millisecond_def outcome_of_def locals_of_def
        cong: prod.case_cong_weak)

subsection \<open>Per-call options and the client's defaults\<close>

text \<open>
  C2 fails on the code. \<^verbatim>\<open>requestOpts := c.options\<close> copies the struct, and with it the
  pointer to the client's tracing options; \<^verbatim>\<open>WithTracingOptions\<close> and
  \<^verbatim>\<open>WithSpanCarrierInjected\<close> write through a pointer that is not nil. A client built with
  tracing off, after one call with the options that enable tracing and carrier
  injection, has both flags set in its stored defaults, and its next call without any
  option starts a span and injects the carrier, where before it did neither.
\<close>

theorem per_call_options_reach_client_defaults:
  "client_tracing client_untraced heap_untraced
       = Some \<lparr>enabled = False, injectCarrier = False, spanOptions = []\<rparr>
   \<and> map_option trace (locals_of (Do env0 client_untraced request0 [] heap_untraced))
       = Some [Send (TimeoutCtx ReqCtx 5000000000 0)]
   \<and> heap_of (Do env0 client_untraced request0
           [WithTracingOptions True ''call'' [], WithSpanCarrierInjected] heap_untraced)
       = Some heap_traced
   \<and> client_tracing client_untraced heap_traced
       = Some \<lparr>enabled = True, injectCarrier = True, spanOptions = []\<rparr>
   \<and> map_option trace (locals_of (Do env0 client_untraced request0 [] heap_traced))
       = Some [StartSpan ''HTTP Egress - client'' [] ''GET'' ''http://example.test'',
               InjectCarrier, LogAttempt 0, Send (TimeoutCtx (SpanCtx ReqCtx) 5000000000 0),
               TagAttemptCount 1, TagStatusCode 200]"
  by (simp add: run_simps client_tracing_def client_untraced_def heap_untraced_def
        heap_traced_def locals_of_def heap_of_def defaultReqTimeout_def defaultMaxRetries_def second_def
        cong: prod.case_cong_weak)


subsection \<open>Tracing that was never enabled\<close>

lemma apply_option_not_enabled:
  assumes "\<not> tracing_enabled (fst x) (snd x)" and "\<not> enables_tracing opt"
  shows "\<not> tracing_enabled (fst (apply_option opt g x)) (snd (apply_option opt g x))"
  using assms
  by (cases opt; cases x)
     (auto simp: tracing_enabled_def alloc_def store_def Let_def split: option.splits)

lemma apply_all_not_enabled:
  assumes "\<not> tracing_enabled (fst x) (snd x)" and "\<forall>opt \<in> set opts. \<not> enables_tracing opt"
  shows "\<not> tracing_enabled (fst (apply_all opts g x)) (snd (apply_all opts g x))"
  using assms
  by (induction opts arbitrary: x) (simp_all add: apply_option_not_enabled)

lemma no_span_without_tracing:
  assumes "\<not> tracing_enabled ro h"
  shows "startAndInjectSpan e req ro h tr = (Returned (False, None, None), tr)
           \<or> startAndInjectSpan e req ro h tr = (Panicked, tr)"
  using assms
  by (auto simp: tracing_enabled_def startAndInjectSpan_def split: option.splits)

lemma action_untraced:
  assumes "action e rp False rb ReqCtx s = (r, s1)" and "\<forall>x \<in> set (trace s). \<not> traced x"
  shows "\<forall>x \<in> set (trace s1). \<not> traced x"
  using assms
  by (auto simp: action_def rewind_def emit_def Let_def
           split: prod.splits option.splits if_splits ReadSeekCloser.splits)

lemma Close_untraced:
  "Close b tr = (u, tr1) \<Longrightarrow> \<forall>x \<in> set tr. \<not> traced x \<Longrightarrow> \<forall>x \<in> set tr1. \<not> traced x"
  by (cases b) (auto simp: Let_def split: option.splits prod.splits)

lemma finish_untraced:
  assumes "finish False (r, s1) = (out, s)" and "\<forall>x \<in> set (trace s1). \<not> traced x"
  shows "\<forall>x \<in> set (trace s). \<not> traced x"
  using assms
  by (auto simp: finish_def Let_def
           split: result.splits option.splits prod.splits dest: Close_untraced)

lemma Do_attempts_untraced:
  assumes run: "Do_attempts e ro h req rb s0 = Some (out, s)"
    and off: "\<not> tracing_enabled ro h"
    and s0: "\<forall>x \<in> set (trace s0). \<not> traced x"
  shows "\<forall>x \<in> set (trace s). \<not> traced x"
proof -
  note span = no_span_without_tracing [OF off, of e req "trace s0"]
  show ?thesis
    using run
  proof (cases rule: Do_attempts_SomeE)
    case (span_panic tr)
    with span s0 show ?thesis by auto
  next
    case (span_error sp spCtx err tr)
    with span show ?thesis by auto
  next
    case (no_policy sp spCtx tr)
    with span s0 show ?thesis by auto
  next
    case (loop sp spCtx tr rp r s1)
    with span have sp: "sp = False" "spCtx = None" "tr = trace s0" by auto
    let ?I = "\<lambda>s. \<forall>x \<in> set (trace s). \<not> traced x"
    from loop(3) have "retry_loop (retryStrategies rp) (ctxErr e)
        (action e rp False rb ReqCtx) 0 internal s0 = Some (r, s1)"
      by (simp add: sp retry_Do_def)
    from retry_loop_invariant [OF this, of ?I] action_untraced s0
    have "?I s1" by fastforce
    with loop(4) sp show ?thesis by (auto dest: finish_untraced)
  qed
qed

lemma Do_heap:
  "Do e c req opts h = Some (out, s, h1) \<Longrightarrow> h1 = snd (requestOptions c opts h)"
  by (auto simp: Do_def Let_def split: prod.splits option.splits sum.splits)

text \<open>
  C10. When tracing is not enabled in the client's options and no per-call option is
  \<^verbatim>\<open>WithTracingOptions(true, ...)\<close>, whatever else is supplied (\<^verbatim>\<open>WithSpanCarrierInjected\<close>
  among them), tracing is still not enabled in the merged options, and a call that
  returns has started no span, injected no carrier, written nothing to a span and
  given the transport no context that carries a span.
\<close>

theorem no_span_unless_enabled:
  assumes "\<not> tracing_enabled (options c) h"
    and "\<forall>opt \<in> set opts. \<not> enables_tracing opt"
    and "Do e c req opts h = Some (out, s, h1)"
  shows "\<not> tracing_enabled (fst (requestOptions c opts h)) h1
           \<and> (\<forall>x \<in> set (trace s). \<not> traced x)"
proof -
  let ?ro = "fst (requestOptions c opts h)" and ?h = "snd (requestOptions c opts h)"
  have h1: "h1 = ?h" using assms(3) by (rule Do_heap)
  have off: "\<not> tracing_enabled ?ro ?h"
    using apply_all_not_enabled [of "(options c, h)" opts "generator c"] assms(1,2)
    by (simp add: requestOptions_def)
  have "\<forall>x \<in> set (trace s). \<not> traced x"
    using assms(3)
  proof (cases rule: Do_SomeE)
    case (prepare b err tr)
    then show ?thesis
      by (auto simp: getRequestBodyReadSeekCloser_def emit_def locals0_def
               split: body.splits sum.splits)
  next
    case no_body
    from Do_attempts_untraced [OF no_body(2) off] show ?thesis by (simp add: locals0_def)
  next
    case (with_body b reqBody tr s1)
    from with_body(2) have "\<forall>x \<in> set tr. \<not> traced x"
      by (auto simp: getRequestBodyReadSeekCloser_def split: body.splits sum.splits)
    with Do_attempts_untraced [OF with_body(3) off] with_body(4) show ?thesis
      by (simp add: locals0_def emit_def)
  qed
  with off h1 show ?thesis by simp
qed

theorem no_span_unless_enabled_witness:
  "\<not> tracing_enabled (options (fst (New [] 0 heap0))) heap0
   \<and> \<not> enables_tracing WithSpanCarrierInjected
   \<and> (\<exists>out s h1. Do env0 (fst (New [] 0 heap0)) request0 [WithSpanCarrierInjected] heap0
                     = Some (out, s, h1)
        \<and> cells h1 0 = Some \<lparr>enabled = False, injectCarrier = True, spanOptions = []\<rparr>
        \<and> \<not> tracing_enabled (fst (requestOptions (fst (New [] 0 heap0))
                                  [WithSpanCarrierInjected] heap0)) h1
        \<and> list_all (\<lambda>x. \<not> traced x) (trace s))"
proof -
  let ?c = "fst (New [] 0 heap0)"
  have a: "\<not> tracing_enabled (options ?c) heap0"
    by (simp add: tracing_enabled_def New_def)
  have b: "\<forall>opt \<in> set [WithSpanCarrierInjected]. \<not> enables_tracing opt" by simp
  obtain out s h1 where run:
    "Do env0 ?c request0 [WithSpanCarrierInjected] heap0 = Some (out, s, h1)"
    and cell: "cells h1 0 = Some \<lparr>enabled = False, injectCarrier = True, spanOptions = []\<rparr>"
    by (simp add: run_simps defaultReqTimeout_def defaultMaxRetries_def second_def
          cong: prod.case_cong_weak)
  from no_span_unless_enabled [OF a b run] a run cell show ?thesis
    by (auto simp: list_all_iff)
qed

subsection \<open>A carrier that cannot be injected\<close>

text \<open>
  C8. When the merged options have tracing enabled with carrier injection, the body (if
  any) was captured, and the tracer's \<^verbatim>\<open>Inject\<close> returns an error, \<^verbatim>\<open>Do\<close> returns a nil
  response with that error wrapped, and the transport was not called.
\<close>

theorem inject_error_fails_call:
  assumes "tracingOptions (fst (requestOptions c opts h)) = Some a"
    and "cells (snd (requestOptions c opts h)) a = Some t"
    and "enabled t" and "injectCarrier t"
    and "Inject e = Some err"
    and "body_captured e req"
  shows "\<exists>s. Do e c req opts h
             = Some (Returned (None, Some (Wrapped err ''error starting and injecting tracing span'')),
                     s, snd (requestOptions c opts h))
           \<and> sends s = 0 \<and> resp s = None \<and> InjectCarrier \<in> set (trace s)"
proof -
  obtain ro h1 where ro: "requestOptions c opts h = (ro, h1)" by (cases "requestOptions c opts h")
  have span: "startAndInjectSpan e req ro h1 tr
      = (Returned (False, None, Some err),
         tr @ [StartSpan (if operationName ro \<noteq> [] then ''HTTP Egress - '' @ operationName ro
                          else ''HTTP Egress'') (spanOptions t) (Method req) (URL req),
               InjectCarrier])" for tr
    using assms(1-5) ro by (simp add: startAndInjectSpan_def Let_def)
  show ?thesis
  proof (cases "Body req")
    case None
    with ro span show ?thesis
      by (simp add: Do_def Do_attempts_def Wrap_def locals0_def)
  next
    case (Some b)
    with assms(6) obtain reqBody tr where
      "getRequestBodyReadSeekCloser e b = (Inr reqBody, tr)"
      by (cases "getRequestBodyReadSeekCloser e b")
         (auto simp: body_captured_def split: sum.splits)
    with Some ro span show ?thesis
      by (simp add: Do_def Do_attempts_def Wrap_def locals0_def emit_def)
  qed
qed

theorem inject_error_fails_call_witness:
  "Inject env_no_inject = Some (Err ''carrier rejected'') \<and> body_captured env_no_inject request0
   \<and> outcome_of (Do env_no_inject (fst (New [] 0 heap0)) request0
         [WithTracingOptions True ''op'' [], WithSpanCarrierInjected] heap0)
       = Some (Returned (None, Some (Wrapped (Err ''carrier rejected'')
                 ''error starting and injecting tracing span'')))
   \<and> map_option sends (locals_of (Do env_no_inject (fst (New [] 0 heap0)) request0
         [WithTracingOptions True ''op'' [], WithSpanCarrierInjected] heap0)) = Some 0"
proof -
  let ?c = "fst (New [] 0 heap0)"
  let ?opts = "[WithTracingOptions True ''op'' [], WithSpanCarrierInjected]"
  have a: "tracingOptions (fst (requestOptions ?c ?opts heap0)) = Some 0"
    by (simp add: requestOptions_def New_def alloc_def store_def heap0_def)
  have b: "cells (snd (requestOptions ?c ?opts heap0)) 0
      = Some \<lparr>enabled = True, injectCarrier = True, spanOptions = []\<rparr>"
    by (simp add: requestOptions_def New_def alloc_def store_def heap0_def)
  have i: "Inject env_no_inject = Some (Err ''carrier rejected'')"
    by (simp add: env_no_inject_def env0_def)
  have c: "body_captured env_no_inject request0"
    by (simp add: body_captured_def request0_def)
  from inject_error_fails_call [OF a b _ _ i c] i c show ?thesis
    by (auto simp: outcome_of_def locals_of_def)
qed

subsection \<open>The cancel function of a successful attempt\<close>

lemma last_send_append:
  "last_send (xs @ ys) = (case last_send ys of Some c \<Rightarrow> Some c | None \<Rightarrow> last_send xs)"
  by (induction xs) (auto split: option.splits)

lemma last_send_no_send:
  "\<forall>c. Send c \<notin> set ys \<Longrightarrow> last_send ys = None"
  by (induction ys) (auto split: option.splits event.splits)

lemma loop_context_eq:
  assumes "startAndInjectSpan e req ro h tr = (Returned (sp, spCtx, er), tr1)"
  shows "loop_context e req ro h = (case spCtx of None \<Rightarrow> ReqCtx | Some c \<Rightarrow> c)"
proof -
  have "fst (startAndInjectSpan e req ro h []) = Returned (sp, spCtx, er)"
    using assms startAndInjectSpan_fst [of e req ro h tr] by simp
  then show ?thesis by (simp add: loop_context_def split: option.splits)
qed

lemma action_cancels_below:
  assumes "action e rp sp rb ctx s = (r, s1)" and "\<forall>k. Cancel k \<in> set (trace s) \<longrightarrow> k < sends s"
  shows "\<forall>k. Cancel k \<in> set (trace s1) \<longrightarrow> k < sends s1"
  using assms
  by (auto simp: action_def rewind_def emit_def Let_def less_Suc_eq
           split: prod.splits option.splits if_splits ReadSeekCloser.splits)

text \<open>
  A successful attempt: the transport call numbered \<open>sends s\<close> gave a response and no
  error, the context it got is the latest in the trace, and the response kept is the
  transport's with its body wrapped.
\<close>

lemma action_success:
  assumes "action e rp sp rb ctx s = (Returned None, s1)"
  shows "\<exists>nr. ClientDo e (sends s) = (Some nr, None) \<and> sends s1 = Suc (sends s)
           \<and> resp s1 = Some \<lparr>StatusCode = netStatusCode nr,
                RespBody = Some (responseBodyReadCloser (netBody nr)
                  (if requestTimeout rp \<noteq> 0 then Some (sends s) else None))\<rparr>
           \<and> last_send (trace s1)
               = Some (if requestTimeout rp \<noteq> 0 then TimeoutCtx ctx (requestTimeout rp) (sends s)
                       else ctx)
           \<and> (\<forall>k. Cancel k \<in> set (trace s1) \<longrightarrow> Cancel k \<in> set (trace s))"
  using assms
  by (auto simp: action_def rewind_def emit_def received_def Let_def last_send_append
           split: prod.splits option.splits if_splits ReadSeekCloser.splits)

lemma finish_success:
  assumes "finish sp (r, s1) = (Returned (Some rr, None), s)"
  shows "r = Returned None \<and> resp s1 = Some rr \<and> sends s = sends s1
           \<and> last_send (trace s) = last_send (trace s1)
           \<and> (\<forall>k. Cancel k \<in> set (trace s) \<longrightarrow> Cancel k \<in> set (trace s1))"
  using assms
  by (auto simp: finish_def emit_def Let_def last_send_append
           split: result.splits option.splits prod.splits if_splits)

lemma span_trace:
  assumes "startAndInjectSpan e req ro h tr = (x, tr1)"
  shows "\<exists>evs. tr1 = tr @ evs \<and> (\<forall>ev \<in> set evs. (\<exists>n so m u. ev = StartSpan n so m u) \<or> ev = InjectCarrier)"
  using assms
  by (auto simp: startAndInjectSpan_def Let_def split: option.splits if_splits)

lemma capture_trace:
  assumes "getRequestBodyReadSeekCloser e b = (x, tr)"
  shows "\<forall>ev \<in> set tr. (\<exists>k. ev = ReadAllBody k) \<or> (\<exists>k. ev = CloseBody k)"
  using assms
  by (auto simp: getRequestBodyReadSeekCloser_def split: body.splits sum.splits)

text \<open>What a run through the loop that ends with a response leaves behind.\<close>

lemma Do_attempts_success:
  assumes run: "Do_attempts e ro h req rb s0 = Some (Returned (Some rr, None), s)"
    and s0: "\<forall>k. Cancel k \<notin> set (trace s0)"
    and rp: "retryPolicy ro = Some rp"
  shows "\<exists>k nr. ClientDo e k = (Some nr, None) \<and> sends s = Suc k
           \<and> rr = \<lparr>StatusCode = netStatusCode nr,
                RespBody = Some (responseBodyReadCloser (netBody nr)
                  (if requestTimeout rp \<noteq> 0 then Some k else None))\<rparr>
           \<and> last_send (trace s)
               = Some (if requestTimeout rp \<noteq> 0
                       then TimeoutCtx (loop_context e req ro h) (requestTimeout rp) k
                       else loop_context e req ro h)
           \<and> Cancel k \<notin> set (trace s)"
  using run
proof (cases rule: Do_attempts_SomeE)
  case (loop sp spCtx tr rp1 r s1)
  let ?ctx = "case spCtx of None \<Rightarrow> ReqCtx | Some c \<Rightarrow> c"
  let ?act = "action e rp sp rb ?ctx"
  let ?I = "\<lambda>s. \<forall>k. Cancel k \<in> set (trace s) \<longrightarrow> k < sends s"
  have ctx: "loop_context e req ro h = ?ctx" using loop(1) by (rule loop_context_eq)
  from finish_success [OF loop(4)]
  have r: "r = Returned None" and rr: "resp s1 = Some rr" and n: "sends s = sends s1"
    and ls: "last_send (trace s) = last_send (trace s1)"
    and tr: "\<forall>k. Cancel k \<in> set (trace s) \<longrightarrow> Cancel k \<in> set (trace s1)" by auto
  from span_trace [OF loop(1)] s0 have init: "?I (s0\<lparr>trace := tr\<rparr>)" by auto
  from loop(2,3) rp r
  have l: "retry_loop (retryStrategies rp) (ctxErr e) ?act 0 internal (s0\<lparr>trace := tr\<rparr>)
      = Some (Returned None, s1)" by (simp add: retry_Do_def)
  have "?I (snd (Returned None :: error option result, s1))
      \<and> (fst (Returned None :: error option result, s1) = Returned None
           \<longrightarrow> (\<exists>s2. ?I s2 \<and> ?act s2 = (Returned None, snd (Returned None :: error option result, s1))))"
    using l action_cancels_below init by (rule retry_loop_invariant [where I = ?I])
  then obtain s2 where i2: "?I s2" and a2: "?act s2 = (Returned None, s1)" by auto
  from action_success [OF a2] obtain nr where
    nr: "ClientDo e (sends s2) = (Some nr, None)" "sends s1 = Suc (sends s2)"
      "resp s1 = Some \<lparr>StatusCode = netStatusCode nr,
          RespBody = Some (responseBodyReadCloser (netBody nr)
            (if requestTimeout rp \<noteq> 0 then Some (sends s2) else None))\<rparr>"
      "last_send (trace s1)
         = Some (if requestTimeout rp \<noteq> 0 then TimeoutCtx ?ctx (requestTimeout rp) (sends s2)
                 else ?ctx)"
      "\<forall>k. Cancel k \<in> set (trace s1) \<longrightarrow> Cancel k \<in> set (trace s2)"
    by blast
  have "Cancel (sends s2) \<notin> set (trace s)"
  proof
    assume "Cancel (sends s2) \<in> set (trace s)"
    with tr nr(5) have "Cancel (sends s2) \<in> set (trace s2)" by blast
    with i2 show False by auto
  qed
  with nr rr n ls ctx show ?thesis by auto
qed simp_all

lemma Do_success:
  assumes run: "Do e c req opts h = Some (Returned (Some rr, None), s, h1)"
    and rp: "retryPolicy (fst (requestOptions c opts h)) = Some rp"
  shows "\<exists>k nr. ClientDo e k = (Some nr, None) \<and> sends s = Suc k
           \<and> rr = \<lparr>StatusCode = netStatusCode nr,
                RespBody = Some (responseBodyReadCloser (netBody nr)
                  (if requestTimeout rp \<noteq> 0 then Some k else None))\<rparr>
           \<and> last_send (trace s)
               = Some (if requestTimeout rp \<noteq> 0
                       then TimeoutCtx (loop_context e req (fst (requestOptions c opts h))
                              (snd (requestOptions c opts h))) (requestTimeout rp) k
                       else loop_context e req (fst (requestOptions c opts h))
                              (snd (requestOptions c opts h)))
           \<and> Cancel k \<notin> set (trace s)"
  using run
proof (cases rule: Do_SomeE)
  case no_body
  from Do_attempts_success [OF no_body(2) _ rp] show ?thesis by (simp add: locals0_def)
next
  case (with_body b reqBody tr s1)
  from capture_trace [OF with_body(2)] have "\<forall>k. Cancel k \<notin> set tr" by auto
  with Do_attempts_success [OF with_body(3) _ rp] with_body(4) show ?thesis
    by (simp add: locals0_def emit_def last_send_append)
qed simp

lemma Close_times_cancels:
  "count_list (Close_times n (responseBodyReadCloser inner (Some k)) tr) (Cancel k)
     = count_list tr (Cancel k) + n"
  by (induction n arbitrary: tr) (auto simp: Let_def split: option.splits)

lemma Close_times_numeral:
  "Close_times (numeral v) b tr = Close_times (pred_numeral v) b (snd (Close b tr))"
  by (simp add: numeral_eq_Suc)

lemma count_list_absent: "x \<notin> set xs \<Longrightarrow> count_list xs x = 0"
  by (induction xs) auto

text \<open>
  C6, as amended. When \<^verbatim>\<open>Do\<close> returns a response and the policy's request timeout is not
  zero, the response is the one the last transport call gave, call number \<open>k\<close>; the
  context that call got is the one derived with the timeout from the loop's context,
  whose cancel function is number \<open>k\<close>; the response body is the wrapper around the
  transport's body that holds this cancel function. It has not been called when \<^verbatim>\<open>Do\<close>
  returns. A \<^verbatim>\<open>Close\<close> of the body closes the transport's body and then calls it, once;
  every further \<^verbatim>\<open>Close\<close> calls it once more, so after \<open>n\<close> calls of \<^verbatim>\<open>Close\<close> it has been
  called \<open>n\<close> times.
\<close>

theorem cancel_once_per_close:
  assumes "Do e c req opts h = Some (Returned (Some rr, None), s, h1)"
    and "retryPolicy (fst (requestOptions c opts h)) = Some rp"
    and "requestTimeout rp \<noteq> 0"
  shows "\<exists>k nr. ClientDo e k = (Some nr, None) \<and> sends s = Suc k
           \<and> rr = \<lparr>StatusCode = netStatusCode nr,
                    RespBody = Some (responseBodyReadCloser (netBody nr) (Some k))\<rparr>
           \<and> last_send (trace s)
               = Some (TimeoutCtx (loop_context e req (fst (requestOptions c opts h))
                                     (snd (requestOptions c opts h))) (requestTimeout rp) k)
           \<and> count_list (trace s) (Cancel k) = 0
           \<and> (\<forall>tr. Close (responseBodyReadCloser (netBody nr) (Some k)) tr
                      = (case netBody nr of
                           None \<Rightarrow> (Panicked, tr @ [Cancel k])
                         | Some b \<Rightarrow> (Returned (), tr @ [CloseNetBody b, Cancel k])))
           \<and> (\<forall>n. count_list (Close_times n (responseBodyReadCloser (netBody nr) (Some k))
                                   (trace s)) (Cancel k) = n)"
proof -
  from Do_success [OF assms(1,2)] assms(3) obtain k nr where
    a: "ClientDo e k = (Some nr, None)" "sends s = Suc k"
      "rr = \<lparr>StatusCode = netStatusCode nr,
             RespBody = Some (responseBodyReadCloser (netBody nr) (Some k))\<rparr>"
      "last_send (trace s)
         = Some (TimeoutCtx (loop_context e req (fst (requestOptions c opts h))
                               (snd (requestOptions c opts h))) (requestTimeout rp) k)"
    and k: "Cancel k \<notin> set (trace s)"
    by auto
  from k have z: "count_list (trace s) (Cancel k) = 0" by (rule count_list_absent)
  have cl: "Close (responseBodyReadCloser (netBody nr) (Some k)) tr
      = (case netBody nr of
           None \<Rightarrow> (Panicked, tr @ [Cancel k])
         | Some b \<Rightarrow> (Returned (), tr @ [CloseNetBody b, Cancel k]))" for tr
    by (simp split: option.splits)
  have "count_list (Close_times n (responseBodyReadCloser (netBody nr) (Some k)) (trace s))
      (Cancel k) = n" for n
    using z by (simp add: Close_times_cancels)
  with a z cl show ?thesis by blast
qed

theorem cancel_once_per_close_witness:
  "retryPolicy (fst (requestOptions (fst (New [] 0 heap0)) [] heap0))
       = Some \<lparr>requestTimeout = 5000000000,
               retryStrategies = [Limit 10, StandardBackOffStrategy 1000000 0 (1 / 4)]\<rparr>
   \<and> ClientDo env_flaky 1 = (Some \<lparr>netStatusCode = 200, netBody = Some 1\<rparr>, None)
   \<and> (\<exists>s. Do env_flaky (fst (New [] 0 heap0)) request0 [] heap0
            = Some (Returned (Some \<lparr>StatusCode = 200,
                        RespBody = Some (responseBodyReadCloser (Some 1) (Some 1))\<rparr>, None),
                    s, heap0)
          \<and> trace s = [Send (TimeoutCtx ReqCtx 5000000000 0), Cancel 0,
                        Send (TimeoutCtx ReqCtx 5000000000 1)]
          \<and> last_send (trace s) = Some (TimeoutCtx ReqCtx 5000000000 1)
          \<and> count_list (trace s) (Cancel 1) = 0
          \<and> Close (responseBodyReadCloser (Some 1) (Some 1)) (trace s)
              = (Returned (), trace s @ [CloseNetBody 1, Cancel 1])
          \<and> count_list (Close_times 1 (responseBodyReadCloser (Some 1) (Some 1)) (trace s))
               (Cancel 1) = 1)"
proof -
  let ?c = "fst (New [] 0 heap0)"
  have p: "retryPolicy (fst (requestOptions ?c [] heap0))
       = Some \<lparr>requestTimeout = 5000000000,
               retryStrategies = [Limit 10, StandardBackOffStrategy 1000000 0 (1 / 4)]\<rparr>"
    by (simp add: requestOptions_def New_def defaultReqTimeout_def defaultMaxRetries_def
          second_def stdBackOffExponentialFactor_def millisecond_def stdBackOffJitterDeviation_def)
  have cd: "ClientDo env_flaky 1 = (Some \<lparr>netStatusCode = 200, netBody = Some 1\<rparr>, None)"
    by (simp add: env_flaky_def env0_def)
  have lc: "loop_context env_flaky request0 (fst (requestOptions ?c [] heap0))
      (snd (requestOptions ?c [] heap0)) = ReqCtx"
    by (simp add: loop_context_def startAndInjectSpan_def requestOptions_def New_def)
  obtain s where run: "Do env_flaky ?c request0 [] heap0
      = Some (Returned (Some \<lparr>StatusCode = 200,
                 RespBody = Some (responseBodyReadCloser (Some 1) (Some 1))\<rparr>, None), s, heap0)"
    and t: "trace s = [Send (TimeoutCtx ReqCtx 5000000000 0), Cancel 0,
                       Send (TimeoutCtx ReqCtx 5000000000 1)]"
    by (simp add: run_simps env_flaky_def defaultReqTimeout_def defaultMaxRetries_def second_def
          cong: prod.case_cong_weak)
  from cancel_once_per_close [OF run p] obtain k nr where
    k: "ClientDo env_flaky k = (Some nr, None)"
      "\<lparr>StatusCode = 200, RespBody = Some (responseBodyReadCloser (Some 1) (Some 1))\<rparr>
         = \<lparr>StatusCode = netStatusCode nr,
            RespBody = Some (responseBodyReadCloser (netBody nr) (Some k))\<rparr>"
      "last_send (trace s)
         = Some (TimeoutCtx (loop_context env_flaky request0 (fst (requestOptions ?c [] heap0))
                               (snd (requestOptions ?c [] heap0))) 5000000000 k)"
      "count_list (trace s) (Cancel k) = 0"
      "\<forall>tr. Close (responseBodyReadCloser (netBody nr) (Some k)) tr
              = (case netBody nr of
                   None \<Rightarrow> (Panicked, tr @ [Cancel k])
                 | Some b \<Rightarrow> (Returned (), tr @ [CloseNetBody b, Cancel k]))"
      "\<forall>n. count_list (Close_times n (responseBodyReadCloser (netBody nr) (Some k)) (trace s))
              (Cancel k) = n"
    by auto
  from k(2) have k1: "k = 1" "netBody nr = Some 1" by auto
  from k(3,4,5,6) k1 lc
  have "last_send (trace s) = Some (TimeoutCtx ReqCtx 5000000000 1)"
    "count_list (trace s) (Cancel 1) = 0"
    "Close (responseBodyReadCloser (Some 1) (Some 1)) (trace s)
       = (Returned (), trace s @ [CloseNetBody 1, Cancel 1])"
    "count_list (Close_times 1 (responseBodyReadCloser (Some 1) (Some 1)) (trace s)) (Cancel 1) = 1"
    by (simp_all del: Close.simps Close_times.simps count_list.simps last_send.simps)
  with p cd run t show ?thesis by blast
qed

theorem cancel_twice_counterexample:
  "outcome_of (Do env0 (fst (New [] 0 heap0)) request0 [] heap0)
       = Some (Returned (Some \<lparr>StatusCode = 200,
                 RespBody = Some (responseBodyReadCloser (Some 0) (Some 0))\<rparr>, None))
   \<and> map_option trace (locals_of (Do env0 (fst (New [] 0 heap0)) request0 [] heap0))
       = Some [Send (TimeoutCtx ReqCtx 5000000000 0)]
   \<and> Close_times 2 (responseBodyReadCloser (Some 0) (Some 0)) [Send (TimeoutCtx ReqCtx 5000000000 0)]
       = [Send (TimeoutCtx ReqCtx 5000000000 0), CloseNetBody 0, Cancel 0, CloseNetBody 0, Cancel 0]
   \<and> count_list (Close_times 2 (responseBodyReadCloser (Some 0) (Some 0))
         [Send (TimeoutCtx ReqCtx 5000000000 0)]) (Cancel 0) = 2"
  by (simp add: run_simps outcome_of_def locals_of_def defaultReqTimeout_def
        defaultMaxRetries_def second_def Close_times_numeral cong: prod.case_cong_weak)

subsection \<open>A request timeout of zero\<close>

lemma action_keeps_context:
  assumes "action e rp sp rb ctx s = (r, s1)"
    and "requestTimeout rp = 0"
    and "\<forall>x \<in> set (trace s). keeps_context ctx x"
    and "\<forall>rr i k. resp s = Some rr \<longrightarrow> RespBody rr \<noteq> Some (responseBodyReadCloser i (Some k))"
  shows "(\<forall>x \<in> set (trace s1). keeps_context ctx x)
           \<and> (\<forall>rr i k. resp s1 = Some rr \<longrightarrow> RespBody rr \<noteq> Some (responseBodyReadCloser i (Some k)))"
  using assms
  by (auto simp: action_def rewind_def emit_def received_def Let_def
           split: prod.splits option.splits if_splits ReadSeekCloser.splits)

lemma Close_keeps_context:
  assumes "Close b tr = (u, tr1)" and "\<forall>x \<in> set tr. keeps_context p x"
    and "\<forall>i k. b \<noteq> responseBodyReadCloser i (Some k)"
  shows "\<forall>x \<in> set tr1. keeps_context p x"
  using assms
  by (cases b) (auto simp: Let_def split: option.splits prod.splits)

lemma finish_keeps_context:
  assumes "finish sp (r, s1) = (out, s)" and "\<forall>x \<in> set (trace s1). keeps_context p x"
    and "\<forall>rr i k. resp s1 = Some rr \<longrightarrow> RespBody rr \<noteq> Some (responseBodyReadCloser i (Some k))"
  shows "\<forall>x \<in> set (trace s). keeps_context p x"
  using assms
  by (auto simp: finish_def emit_def Let_def
           split: result.splits option.splits prod.splits if_splits
           dest!: Close_keeps_context)

lemma span_keeps_context:
  assumes "startAndInjectSpan e req ro h tr = (x, tr1)" and "\<forall>ev \<in> set tr. keeps_context p ev"
  shows "\<forall>ev \<in> set tr1. keeps_context p ev"
  using assms
  by (auto simp: startAndInjectSpan_def Let_def split: option.splits if_splits)

lemma Do_attempts_keeps_context:
  assumes run: "Do_attempts e ro h req rb s0 = Some (out, s)"
    and s0: "\<forall>x \<in> set (trace s0). keeps_context (loop_context e req ro h) x" "resp s0 = None"
    and rp: "retryPolicy ro = Some rp" "requestTimeout rp = 0"
  shows "\<forall>x \<in> set (trace s). keeps_context (loop_context e req ro h) x"
  using run
proof (cases rule: Do_attempts_SomeE)
  case (span_panic tr)
  from span_keeps_context [OF span_panic(1)] s0 span_panic(2,3) show ?thesis by auto
next
  case (span_error sp spCtx err tr)
  from span_keeps_context [OF span_error(1)] s0 span_error(2,3) show ?thesis by auto
next
  case (no_policy sp spCtx tr)
  with rp show ?thesis by simp
next
  case (loop sp spCtx tr rp1 r s1)
  let ?ctx = "case spCtx of None \<Rightarrow> ReqCtx | Some c \<Rightarrow> c"
  let ?act = "action e rp sp rb ?ctx"
  let ?I = "\<lambda>s. (\<forall>x \<in> set (trace s). keeps_context ?ctx x)
      \<and> (\<forall>rr i k. resp s = Some rr \<longrightarrow> RespBody rr \<noteq> Some (responseBodyReadCloser i (Some k)))"
  have ctx: "loop_context e req ro h = ?ctx" using loop(1) by (rule loop_context_eq)
  have step: "?I s1" if "?I s" "?act s = (r, s1)" for s r s1
    using action_keeps_context [OF that(2) rp(2)] that(1) by blast
  from span_keeps_context [OF loop(1)] s0 ctx have init: "?I (s0\<lparr>trace := tr\<rparr>)" by auto
  from loop(2,3) rp
  have l: "retry_loop (retryStrategies rp) (ctxErr e) ?act 0 internal (s0\<lparr>trace := tr\<rparr>)
      = Some (r, s1)" by (simp add: retry_Do_def)
  have "?I (snd (r, s1)) \<and> (fst (r, s1) = Returned None
      \<longrightarrow> (\<exists>s2. ?I s2 \<and> ?act s2 = (Returned None, snd (r, s1))))"
    using l step init by (rule retry_loop_invariant [where I = ?I])
  then have inv: "?I s1" by simp
  then have "\<forall>x \<in> set (trace s). keeps_context ?ctx x"
    by (intro finish_keeps_context [OF loop(4)]) simp_all
  with ctx show ?thesis by simp
qed

text \<open>
  C7. With a policy whose request timeout is zero, in a call that ends every transport
  call was given the very context the loop was given (the one that carries the span
  when a span was started, else the request's), and no cancel function was called. A
  response the call returns is the one the last transport call gave, with the wrapper
  around the transport's body as its body and nil as the wrapper's cancel function; the
  latest context the transport got is the loop's; and closing the body closes the
  transport's body and does nothing else.
\<close>

theorem zero_timeout_keeps_parent_context:
  assumes "retryPolicy (fst (requestOptions c opts h)) = Some rp"
    and "requestTimeout rp = 0"
    and "Do e c req opts h = Some (out, s, h1)"
  shows "(\<forall>x \<in> set (trace s).
            keeps_context (loop_context e req (fst (requestOptions c opts h))
                             (snd (requestOptions c opts h))) x)
           \<and> (\<forall>rr. out = Returned (Some rr, None) \<longrightarrow>
                 (\<exists>k nr. ClientDo e k = (Some nr, None) \<and> sends s = Suc k
                    \<and> rr = \<lparr>StatusCode = netStatusCode nr,
                             RespBody = Some (responseBodyReadCloser (netBody nr) None)\<rparr>
                    \<and> last_send (trace s)
                        = Some (loop_context e req (fst (requestOptions c opts h))
                                  (snd (requestOptions c opts h)))
                    \<and> (\<forall>tr. Close (responseBodyReadCloser (netBody nr) None) tr
                               = (case netBody nr of
                                    None \<Rightarrow> (Panicked, tr)
                                  | Some b \<Rightarrow> (Returned (), tr @ [CloseNetBody b])))))"
proof -
  let ?p = "loop_context e req (fst (requestOptions c opts h)) (snd (requestOptions c opts h))"
  have t: "\<forall>x \<in> set (trace s). keeps_context ?p x"
    using assms(3)
  proof (cases rule: Do_SomeE)
    case (prepare b err tr)
    from capture_trace [OF prepare(2)] prepare(3,4) show ?thesis
      by (auto simp: emit_def locals0_def)
  next
    case no_body
    from Do_attempts_keeps_context [OF no_body(2) _ _ assms(1,2)] show ?thesis
      by (simp add: locals0_def)
  next
    case (with_body b reqBody tr s1)
    from capture_trace [OF with_body(2)] have "\<forall>x \<in> set tr. keeps_context ?p x" by auto
    with Do_attempts_keeps_context [OF with_body(3) _ _ assms(1,2)] with_body(4) show ?thesis
      by (simp add: locals0_def emit_def)
  qed
  have "\<exists>k nr. ClientDo e k = (Some nr, None) \<and> sends s = Suc k
          \<and> rr = \<lparr>StatusCode = netStatusCode nr,
                   RespBody = Some (responseBodyReadCloser (netBody nr) None)\<rparr>
          \<and> last_send (trace s) = Some ?p
          \<and> (\<forall>tr. Close (responseBodyReadCloser (netBody nr) None) tr
                     = (case netBody nr of
                          None \<Rightarrow> (Panicked, tr)
                        | Some b \<Rightarrow> (Returned (), tr @ [CloseNetBody b])))"
    if "out = Returned (Some rr, None)" for rr
  proof -
    from that assms(3) have "Do e c req opts h = Some (Returned (Some rr, None), s, h1)" by simp
    from Do_success [OF this assms(1)] assms(2) obtain k nr where
      a: "ClientDo e k = (Some nr, None)" "sends s = Suc k"
        "rr = \<lparr>StatusCode = netStatusCode nr,
               RespBody = Some (responseBodyReadCloser (netBody nr) None)\<rparr>"
        "last_send (trace s) = Some ?p"
      by auto
    have "Close (responseBodyReadCloser (netBody nr) None) tr
        = (case netBody nr of
             None \<Rightarrow> (Panicked, tr)
           | Some b \<Rightarrow> (Returned (), tr @ [CloseNetBody b]))" for tr
      by (simp split: option.splits)
    with a show ?thesis by blast
  qed
  with t show ?thesis by blast
qed

theorem zero_timeout_keeps_parent_context_witness:
  "retryPolicy (fst (requestOptions client_traced_untimed [] heap_traced_untimed))
       = Some \<lparr>requestTimeout = 0, retryStrategies = [Limit 2]\<rparr>
   \<and> loop_context env_flaky request0
         (fst (requestOptions client_traced_untimed [] heap_traced_untimed))
         (snd (requestOptions client_traced_untimed [] heap_traced_untimed)) = SpanCtx ReqCtx
   \<and> (\<exists>s. Do env_flaky client_traced_untimed request0 [] heap_traced_untimed
            = Some (Returned (Some \<lparr>StatusCode = 200,
                        RespBody = Some (responseBodyReadCloser (Some 1) None)\<rparr>, None),
                    s, heap_traced_untimed)
          \<and> trace s = [StartSpan ''HTTP Egress - op'' [] ''GET'' ''http://example.test'',
                        LogAttempt 0, Send (SpanCtx ReqCtx), LogAttempt 1, Send (SpanCtx ReqCtx),
                        TagAttemptCount 2, TagStatusCode 200]
          \<and> list_all (keeps_context (SpanCtx ReqCtx)) (trace s)
          \<and> last_send (trace s) = Some (SpanCtx ReqCtx))
   \<and> Close (responseBodyReadCloser (Some 1) None) [] = (Returned (), [CloseNetBody 1])"
proof -
  let ?c = client_traced_untimed and ?h = heap_traced_untimed
  have p: "retryPolicy (fst (requestOptions ?c [] ?h))
       = Some \<lparr>requestTimeout = 0, retryStrategies = [Limit 2]\<rparr>"
    by (simp add: requestOptions_def client_traced_untimed_def New_def alloc_def heap0_def)
  have lc: "loop_context env_flaky request0 (fst (requestOptions ?c [] ?h))
      (snd (requestOptions ?c [] ?h)) = SpanCtx ReqCtx"
    by (simp add: loop_context_def startAndInjectSpan_def requestOptions_def
          client_traced_untimed_def heap_traced_untimed_def New_def alloc_def heap0_def
          env_flaky_def env0_def)
  obtain s where run: "Do env_flaky ?c request0 [] ?h
      = Some (Returned (Some \<lparr>StatusCode = 200,
                 RespBody = Some (responseBodyReadCloser (Some 1) None)\<rparr>, None), s, ?h)"
    and t: "trace s = [StartSpan ''HTTP Egress - op'' [] ''GET'' ''http://example.test'',
                       LogAttempt 0, Send (SpanCtx ReqCtx), LogAttempt 1, Send (SpanCtx ReqCtx),
                       TagAttemptCount 2, TagStatusCode 200]"
    by (simp add: run_simps env_flaky_def client_traced_untimed_def heap_traced_untimed_def
          cong: prod.case_cong_weak)
  from zero_timeout_keeps_parent_context [OF p _ run] lc
  have "list_all (keeps_context (SpanCtx ReqCtx)) (trace s)"
    and "last_send (trace s) = Some (SpanCtx ReqCtx)"
    by (auto simp: list_all_iff simp del: last_send.simps)
  with p lc run t show ?thesis by simp
qed

subsection \<open>A rewind that fails\<close>

lemma rewind_fst: "seeks s1 = seeks s \<Longrightarrow> fst (rewind e rb s1) = fst (rewind e rb s)"
  by (simp add: rewind_def split: option.splits ReadSeekCloser.splits)

lemma action_rewind_fails:
  assumes "fst (rewind e rb s) = Some er"
  shows "\<exists>s1. action e rp sp rb ctx s = (Returned (Some er), s1)
           \<and> calls s1 = Suc (calls s) \<and> seeks s1 = Suc (seeks s)
           \<and> sends s1 = sends s \<and> resp s1 = resp s"
proof -
  let ?s = "(if sp then emit [LogAttempt (attemptCount s)] s else s)\<lparr>calls := Suc (calls s)\<rparr>"
  have "fst (rewind e rb ?s) = Some er"
    using assms rewind_fst [of ?s s e rb] by (simp add: emit_def)
  then obtain s2 where r: "rewind e rb ?s = (Some er, s2)" by (cases "rewind e rb ?s") auto
  then have "calls s2 = Suc (calls s) \<and> seeks s2 = Suc (seeks s)
      \<and> sends s2 = sends s \<and> resp s2 = resp s"
    by (auto simp: rewind_def emit_def split: option.splits ReadSeekCloser.splits)
  with r show ?thesis by (simp add: action_def Let_def)
qed

lemma action_transport_error:
  assumes "fst (rewind e rb s) = None" and "snd (ClientDo e (sends s)) = Some er"
  shows "\<exists>s1. action e rp sp rb ctx s = (Returned (Some er), s1) \<and> calls s1 = Suc (calls s)"
proof -
  let ?s = "(if sp then emit [LogAttempt (attemptCount s)] s else s)\<lparr>calls := Suc (calls s)\<rparr>"
  have "fst (rewind e rb ?s) = None"
    using assms(1) rewind_fst [of ?s s e rb] by (simp add: emit_def)
  then obtain s2 where r: "rewind e rb ?s = (None, s2)" by (cases "rewind e rb ?s") auto
  then have s2: "calls s2 = Suc (calls s)" "sends s2 = sends s"
    by (auto simp: rewind_def emit_def split: option.splits ReadSeekCloser.splits)
  obtain x where "ClientDo e (sends s2) = (x, Some er)"
    using assms(2) s2 by (cases "ClientDo e (sends s)") auto
  with r s2 show ?thesis
    by (auto simp: action_def Let_def emit_def split: option.splits)
qed

text \<open>
  C5. Take an attempt that the loop makes (the context is not done and the strategies
  permit it) and that fails with an error: because the rewind of the body fails with it,
  or because the rewind succeeds and the transport fails with it. In both cases the
  action returns that error, and what the loop does next is the same: it returns the
  context's error when the context is done by then; otherwise it asks the strategies
  about the next attempt with that error, and runs the action again when they permit,
  or returns the error when they decline.
\<close>

theorem failed_attempt_is_left_to_strategies:
  assumes "ctxErr e k = None"
    and "list_all (\<lambda>st. permits st None k err) strategies"
    and "fst (rewind e rb s) = Some er
           \<or> (fst (rewind e rb s) = None \<and> snd (ClientDo e (sends s)) = Some er)"
  shows "\<exists>s1. action e rp sp rb aCtx s = (Returned (Some er), s1) \<and> calls s1 = Suc (calls s)
           \<and> retry_loop strategies (ctxErr e) (action e rp sp rb aCtx) k err s
               = (case ctxErr e (k + 1) of
                    Some ce \<Rightarrow> Some (Returned (Some ce), s1)
                  | None \<Rightarrow>
                      if list_all (\<lambda>st. permits st None (k + 1) er) strategies
                      then (case action e rp sp rb aCtx s1 of
                              (Panicked, s2) \<Rightarrow> Some (Panicked, s2)
                            | (Returned None, s2) \<Rightarrow> Some (Returned None, s2)
                            | (Returned (Some er2), s2) \<Rightarrow>
                                retry_loop strategies (ctxErr e) (action e rp sp rb aCtx)
                                  (k + 1 + 1) er2 s2)
                      else Some (Returned (Some er), s1))"
proof -
  from assms(3) obtain s1 where a: "action e rp sp rb aCtx s = (Returned (Some er), s1)"
    and c: "calls s1 = Suc (calls s)"
    using action_rewind_fails [of e rb s er rp sp aCtx]
      action_transport_error [of e rb s er rp sp aCtx] by blast
  have "retry_loop strategies (ctxErr e) (action e rp sp rb aCtx) k err s
      = retry_loop strategies (ctxErr e) (action e rp sp rb aCtx) (k + 1) er s1"
    using assms(1,2) a by (intro retry_loop_failed) simp_all
  also have "\<dots> = (case ctxErr e (k + 1) of
                    Some ce \<Rightarrow> Some (Returned (Some ce), s1)
                  | None \<Rightarrow>
                      if list_all (\<lambda>st. permits st None (k + 1) er) strategies
                      then (case action e rp sp rb aCtx s1 of
                              (Panicked, s2) \<Rightarrow> Some (Panicked, s2)
                            | (Returned None, s2) \<Rightarrow> Some (Returned None, s2)
                            | (Returned (Some er2), s2) \<Rightarrow>
                                retry_loop strategies (ctxErr e) (action e rp sp rb aCtx)
                                  (k + 1 + 1) er2 s2)
                      else Some (Returned (Some er), s1))"
    by (subst retry_loop.simps) (simp split: option.splits)
  finally show ?thesis using a c by blast
qed


theorem failed_attempt_is_left_to_strategies_witness:
  "ctxErr env_seek_once 0 = None
   \<and> list_all (\<lambda>st. permits st None 0 internal) [Limit 2]
   \<and> fst (rewind env_seek_once (Some (CallerBody 0)) locals0) = Some (Err ''seek failed'')
   \<and> retry_loop [Limit 2] (ctxErr env_seek_once)
        (action env_seek_once \<lparr>requestTimeout = second, retryStrategies = [Limit 2]\<rparr> False
           (Some (CallerBody 0)) ReqCtx) 0 internal locals0
       = Some (Returned None,
           \<lparr>resp = Some \<lparr>StatusCode = 200,
                          RespBody = Some (responseBodyReadCloser (Some 0) (Some 0))\<rparr>,
              attemptCount = 1, seeks = 2, sends = 1, calls = 2,
              trace = [SeekStart, SeekStart, Send (TimeoutCtx ReqCtx 1000000000 0)]\<rparr>)"
proof -
  have a: "ctxErr env_seek_once 0 = None" by (simp add: env_seek_once_def env0_def)
  have b: "list_all (\<lambda>st. permits st None 0 internal) [Limit 2]" by simp
  have c: "fst (rewind env_seek_once (Some (CallerBody 0)) locals0) = Some (Err ''seek failed'')"
    by (simp add: rewind_def env_seek_once_def env0_def locals0_def)
  from failed_attempt_is_left_to_strategies [OF a b disjI1 [OF c],
      of "\<lparr>requestTimeout = second, retryStrategies = [Limit 2]\<rparr>" False ReqCtx]
  obtain s1 where
    s1: "action env_seek_once \<lparr>requestTimeout = second, retryStrategies = [Limit 2]\<rparr> False
           (Some (CallerBody 0)) ReqCtx locals0 = (Returned (Some (Err ''seek failed'')), s1)"
    and l: "retry_loop [Limit 2] (ctxErr env_seek_once)
        (action env_seek_once \<lparr>requestTimeout = second, retryStrategies = [Limit 2]\<rparr> False
           (Some (CallerBody 0)) ReqCtx) 0 internal locals0
       = (case ctxErr env_seek_once (0 + 1) of
            Some ce \<Rightarrow> Some (Returned (Some ce), s1)
          | None \<Rightarrow>
              if list_all (\<lambda>st. permits st None (0 + 1) (Err ''seek failed'')) [Limit 2]
              then (case action env_seek_once \<lparr>requestTimeout = second, retryStrategies = [Limit 2]\<rparr>
                           False (Some (CallerBody 0)) ReqCtx s1 of
                      (Panicked, s2) \<Rightarrow> Some (Panicked, s2)
                    | (Returned None, s2) \<Rightarrow> Some (Returned None, s2)
                    | (Returned (Some er2), s2) \<Rightarrow>
                        retry_loop [Limit 2] (ctxErr env_seek_once)
                          (action env_seek_once \<lparr>requestTimeout = second, retryStrategies = [Limit 2]\<rparr>
                             False (Some (CallerBody 0)) ReqCtx) (0 + 1 + 1) er2 s2)
              else Some (Returned (Some (Err ''seek failed'')), s1))"
    by blast
  from s1 have "s1 = \<lparr>resp = None, attemptCount = 0, seeks = 1, sends = 0, calls = 1,
      trace = [SeekStart]\<rparr>"
    by (simp add: action_def rewind_def emit_def locals0_def env_seek_once_def env0_def)
  with l have "retry_loop [Limit 2] (ctxErr env_seek_once)
        (action env_seek_once \<lparr>requestTimeout = second, retryStrategies = [Limit 2]\<rparr> False
           (Some (CallerBody 0)) ReqCtx) 0 internal locals0
       = Some (Returned None,
           \<lparr>resp = Some \<lparr>StatusCode = 200,
                          RespBody = Some (responseBodyReadCloser (Some 0) (Some 0))\<rparr>,
              attemptCount = 1, seeks = 2, sends = 1, calls = 2,
              trace = [SeekStart, SeekStart, Send (TimeoutCtx ReqCtx 1000000000 0)]\<rparr>)"
    by (simp add: action_def rewind_def emit_def received_def env_seek_once_def env0_def
          second_def Let_def)
  with a b c show ?thesis by simp
qed

subsection \<open>A body that can never be rewound\<close>





end
